theory Spec2Isabelle
  imports Complex_Main "HOL-Library.Char_ord" "HOL-Library.List_Lexorder"
begin

section \<open>Smart Car Wash backend: pricing, dispatch and queue advancement\<close>

text \<open>
  The development embeds the calculation utilities (\<^verbatim>\<open>utils/calculations\<close>), the order
  routes and the admin status route of the backend.

  Conventions of the embedding.
  \<^item> JavaScript numbers are IEEE doubles. Coordinates are \<open>real\<close>; dirt level,
    identifiers and minutes are \<open>int\<close>. A distance is a \<open>number\<close>: \<open>NaN\<close> or a real. The
    one rounding error that decides between the two, that of the haversine term \<open>a\<close>, is
    supplied by the environment; the other operations are exact.
  \<^item> Instants are milliseconds, as \<^verbatim>\<open>Date.getTime\<close> counts them. Every reading of the
    clock (\<^verbatim>\<open>new Date()\<close>, \<^verbatim>\<open>Date.now()\<close>, \<^verbatim>\<open>CURRENT_TIMESTAMP\<close>, \<^verbatim>\<open>datetime('now')\<close>) is
    a parameter. A requested date keeps its text next to the instant JavaScript reads from
    it, since SQL orders by the text. \<open>available_from\<close> of a unit is the instant that
    \<^verbatim>\<open>new Date\<close> reads from the stored text, which is all the code does with it.
    \<open>updated_at\<close> and the log timestamp, which no function reads, are the instant their
    text denotes.
  \<^item> Columns that no function below reads (vehicle number and type, address, image,
    customer contact) are left out of the rows. The columns kept carry the prefix of their
    table (\<open>m_\<close>, \<open>o_\<close>, \<open>l_\<close>), since the fields of all records share one name space.
  \<^item> \<^verbatim>\<open>Array.prototype.sort\<close> is stable (ECMAScript 2019), as \<^const>\<open>sort_key\<close> is.
  \<^item> The events sent through \<^verbatim>\<open>socket.io\<close> and the PDF are outside the store and are not
    modelled, except that \<^verbatim>\<open>generatePDF\<close> may fail.
\<close>

subsection \<open>Calculation utilities\<close>

text \<open>\<^verbatim>\<open>String.prototype.includes\<close>: the argument occurs as a contiguous substring.\<close>

primrec starts_with :: "string \<Rightarrow> string \<Rightarrow> bool" where
  "starts_with s [] = True"
| "starts_with s (c # cs) = (case s of [] \<Rightarrow> False | d # ds \<Rightarrow> d = c \<and> starts_with ds cs)"

primrec includes_str :: "string \<Rightarrow> string \<Rightarrow> bool" where
  "includes_str [] sub = starts_with [] sub"
| "includes_str (c # cs) sub = (starts_with (c # cs) sub \<or> includes_str cs sub)"

definition calculateDuration :: "int \<Rightarrow> string \<Rightarrow> int" where
  "calculateDuration dirtLevel serviceType =
     (let duration = 30;
          duration = duration + 10 * dirtLevel;
          duration = (if includes_str serviceType ''polish'' then duration + 15 else duration);
          duration = (if includes_str serviceType ''wax'' then duration + 10 else duration)
      in duration)"

text \<open>\<^verbatim>\<open>Math.round\<close> rounds halves towards plus infinity, as \<^const>\<open>round\<close> does.\<close>

definition calculatePrice :: "int \<Rightarrow> real \<Rightarrow> string \<Rightarrow> int" where
  "calculatePrice dirtLevel distanceKm serviceType =
     (let price = 50;
          price = price + 20 * real_of_int dirtLevel;
          price = price + 2 * distanceKm
      in round price)"

text \<open>\<^verbatim>\<open>Math.atan2 (y, x)\<close> on the reals.\<close>

definition atan2 :: "real \<Rightarrow> real \<Rightarrow> real" where
  "atan2 y x =
     (if 0 < x then arctan (y / x)
      else if x < 0 \<and> 0 \<le> y then arctan (y / x) + pi
      else if x < 0 then arctan (y / x) - pi
      else if 0 < y then pi / 2
      else if y < 0 then - (pi / 2)
      else 0)"

text \<open>A JavaScript number that may be \<^verbatim>\<open>NaN\<close>.\<close>

datatype number = NaN | Number real

text \<open>
  The rounding error of the double value of \<^verbatim>\<open>a\<close> in \<^verbatim>\<open>calculateDistance\<close>, as a function
  of the four arguments.
\<close>

type_synonym rounding = "real \<Rightarrow> real \<Rightarrow> real \<Rightarrow> real \<Rightarrow> real"

text \<open>
  \<^verbatim>\<open>calculateDistance\<close>. On the reals \<^verbatim>\<open>a\<close> lies between 0 and 1; its double value can
  leave that range by a rounding error, and then \<^verbatim>\<open>Math.sqrt\<close> of a negative number is
  \<^verbatim>\<open>NaN\<close>, and so are \<^verbatim>\<open>Math.atan2\<close> and the product.
\<close>

definition calculateDistance :: "rounding \<Rightarrow> real \<Rightarrow> real \<Rightarrow> real \<Rightarrow> real \<Rightarrow> number" where
  "calculateDistance rd lat1 lng1 lat2 lng2 =
     (let R = 6371;
          dLat = (lat2 - lat1) * pi / 180;
          dLng = (lng2 - lng1) * pi / 180;
          a = sin (dLat / 2) * sin (dLat / 2) +
              cos (lat1 * pi / 180) * cos (lat2 * pi / 180) *
              sin (dLng / 2) * sin (dLng / 2) +
              rd lat1 lng1 lat2 lng2
      in if a < 0 \<or> 1 < a then NaN
         else Number (R * (2 * atan2 (sqrt a) (sqrt (1 - a)))))"

text \<open>
  \<^verbatim>\<open>parseFloat (x.toFixed (2))\<close>: the nearest multiple of 0.01, a tie going to the
  larger magnitude (\<^verbatim>\<open>toFixed\<close> formats the absolute value and prefixes the sign);
  \<^verbatim>\<open>NaN\<close> is printed and read back as \<^verbatim>\<open>NaN\<close>.
\<close>

definition roundTo2 :: "real \<Rightarrow> real" where
  "roundTo2 x =
     (if x < 0 then - (real_of_int (round (- x * 100)) / 100)
      else real_of_int (round (x * 100)) / 100)"

definition toFixed2 :: "number \<Rightarrow> number" where
  "toFixed2 x = (case x of NaN \<Rightarrow> NaN | Number r \<Rightarrow> Number (roundTo2 r))"

text \<open>
  A date as a request or a row carries it: the text, and the instant that
  \<^verbatim>\<open>new Date (text)\<close> reads from it. JavaScript compares the instants, SQL the texts.
\<close>

record datetime =
  dt_text :: string
  dt_instant :: int

text \<open>
  \<^verbatim>\<open>CURRENT_TIMESTAMP\<close> and \<^verbatim>\<open>datetime('now')\<close>: the clock in UTC, to whole seconds.
\<close>

definition sqlNow :: "int \<Rightarrow> int" where
  "sqlNow t = (t div 1000) * 1000"

record mobile =
  m_id :: int
  m_name :: string
  m_location_lat :: real
  m_location_lng :: real
  m_available_from :: int
  m_is_available :: int
  m_current_order_id :: "int option"

record order =
  o_id :: int
  o_service_type :: string
  o_requested_datetime :: datetime
  o_location_lat :: real
  o_location_lng :: real
  o_dirt_level :: int
  o_price :: int
  o_duration_minutes :: int
  o_distance_km :: number
  o_mobile_id :: "int option"
  o_status :: string
  o_updated_at :: int

text \<open>The filter of \<^verbatim>\<open>trulyAvailableMobiles\<close>.\<close>

definition trulyAvailable :: "int \<Rightarrow> mobile \<Rightarrow> bool" where
  "trulyAvailable now mobile = (m_is_available mobile = 1 \<and> m_available_from mobile \<le> now)"

text \<open>
  The body of the \<^verbatim>\<open>forEach\<close> of scenario A. The pair \<^verbatim>\<open>(closestMobile, minDistance)\<close>
  starts as \<^verbatim>\<open>(null, Infinity)\<close>, which is \<open>None\<close>. The test \<^verbatim>\<open>distance < minDistance\<close>
  is false for a \<^verbatim>\<open>NaN\<close> distance, also against \<^verbatim>\<open>Infinity\<close>: such a unit is passed over.
  Every other distance is below \<^verbatim>\<open>Infinity\<close>.
\<close>

definition closestStep ::
  "rounding \<Rightarrow> real \<Rightarrow> real \<Rightarrow> (mobile \<times> real) option \<Rightarrow> mobile \<Rightarrow> (mobile \<times> real) option" where
  "closestStep rd customerLat customerLng acc mobile =
     (case calculateDistance rd (m_location_lat mobile) (m_location_lng mobile)
             customerLat customerLng of
        NaN \<Rightarrow> acc
      | Number distance \<Rightarrow>
          (case acc of
             None \<Rightarrow> Some (mobile, distance)
           | Some (closestMobile, minDistance) \<Rightarrow>
               if distance < minDistance then Some (mobile, distance) else acc))"

text \<open>
  \<^verbatim>\<open>activeOrders.filter (...).sort (...)[0]\<close>: the sort is stable and descending in the
  instants of the requested dates; the result is \<^verbatim>\<open>undefined\<close> when the unit has no
  active order.
\<close>

definition lastOrderForMobile :: "order list \<Rightarrow> mobile \<Rightarrow> order option" where
  "lastOrderForMobile activeOrders mobile =
     (case sort_key (\<lambda>ord. - dt_instant (o_requested_datetime ord))
             (filter (\<lambda>ord. o_mobile_id ord = Some (m_id mobile)) activeOrders) of
        [] \<Rightarrow> None
      | ord # _ \<Rightarrow> Some ord)"

text \<open>
  One element of \<^verbatim>\<open>mobilesWithFutureData\<close>: the unit, its \<^verbatim>\<open>distance\<close> and its
  \<^verbatim>\<open>effective_available_from\<close>.
\<close>

definition withFutureData ::
  "rounding \<Rightarrow> real \<Rightarrow> real \<Rightarrow> order list \<Rightarrow> mobile \<Rightarrow> mobile \<times> number \<times> int" where
  "withFutureData rd customerLat customerLng activeOrders mobile =
     (let lastOrder = lastOrderForMobile activeOrders mobile;
          startLat = (case lastOrder of Some ord \<Rightarrow> o_location_lat ord
                                      | None \<Rightarrow> m_location_lat mobile);
          startLng = (case lastOrder of Some ord \<Rightarrow> o_location_lng ord
                                      | None \<Rightarrow> m_location_lng mobile);
          distance = calculateDistance rd startLat startLng customerLat customerLng
      in (mobile, toFixed2 distance, m_available_from mobile))"

text \<open>
  \<^verbatim>\<open>findBestMobile\<close> returns the chosen unit with its \<^verbatim>\<open>distance\<close> property, or
  \<^verbatim>\<open>null\<close>/\<^verbatim>\<open>undefined\<close> (\<open>None\<close>). In scenario A \<^verbatim>\<open>closestMobile\<close> is still \<^verbatim>\<open>null\<close>
  after the loop when every distance was \<^verbatim>\<open>NaN\<close>.
\<close>

definition findBestMobile ::
  "rounding \<Rightarrow> int \<Rightarrow> mobile list \<Rightarrow> real \<Rightarrow> real \<Rightarrow> order list \<Rightarrow>
     (mobile \<times> number) option" where
  "findBestMobile rd now mobiles customerLat customerLng activeOrders =
     (let trulyAvailableMobiles = filter (trulyAvailable now) mobiles
      in if length trulyAvailableMobiles > 0 then
           (case foldl (closestStep rd customerLat customerLng) None trulyAvailableMobiles of
              None \<Rightarrow> None
            | Some (closestMobile, minDistance) \<Rightarrow>
                Some (closestMobile, toFixed2 (Number minDistance)))
         else
           (case sort_key (\<lambda>(m, d, e). e)
                   (map (withFutureData rd customerLat customerLng activeOrders) mobiles) of
              [] \<Rightarrow> None
            | (m, d, e) # _ \<Rightarrow> Some (m, d)))"

subsection \<open>The store\<close>

record activity_log =
  l_order_id :: int
  l_status :: string
  l_mobile_id :: "int option"
  l_notes :: string
  l_timestamp :: int

text \<open>
  The three tables, rows in rowid order, and the \<^verbatim>\<open>AUTOINCREMENT\<close> counter of
  \<^verbatim>\<open>orders\<close>. Foreign keys are declared but never switched on, so no statement below
  checks them.
\<close>

record db =
  db_orders :: "order list"
  db_orders_seq :: int
  db_mobiles :: "mobile list"
  db_activity_logs :: "activity_log list"

text \<open>
  The environment of one request: which of its statements the store fails (numbered in
  program order from 0), what the clock reads at each of them, the rounding of the
  distances, and how far the local time of the server is ahead of UTC, in milliseconds.
\<close>

record env =
  fails :: "nat \<Rightarrow> bool"
  clock :: "nat \<Rightarrow> int"
  rounding :: rounding
  zone :: int

datatype error =
  ValidationFailed
  | NoMobileAvailable
  | InvalidStatus
  | OrderNotFound
  | DbError nat
  | PdfError

definition validStatuses :: "string list" where
  "validStatuses = [''pending'', ''assigned'', ''on_way'', ''washing'', ''completed'', ''cancelled'']"

text \<open>\<^verbatim>\<open>UPDATE orders SET status = ?, updated_at = CURRENT_TIMESTAMP WHERE id = ?\<close>\<close>

definition updateOrderStatus :: "int \<Rightarrow> string \<Rightarrow> int \<Rightarrow> db \<Rightarrow> db" where
  "updateOrderStatus now status orderId s =
     s\<lparr>db_orders :=
         map (\<lambda>r. if o_id r = orderId then r\<lparr>o_status := status, o_updated_at := sqlNow now\<rparr>
                   else r)
           (db_orders s)\<rparr>"

text \<open>
  \<^verbatim>\<open>INSERT INTO activity_logs (order_id, status, mobile_id, notes) VALUES (?, ?, ?, ?)\<close>;
  the timestamp is the column default \<^verbatim>\<open>CURRENT_TIMESTAMP\<close>.
\<close>

definition insertLog :: "int \<Rightarrow> int \<Rightarrow> string \<Rightarrow> int option \<Rightarrow> string \<Rightarrow> db \<Rightarrow> db" where
  "insertLog now orderId status mobileId notes s =
     s\<lparr>db_activity_logs := db_activity_logs s @
         [\<lparr>l_order_id = orderId, l_status = status, l_mobile_id = mobileId,
           l_notes = notes, l_timestamp = sqlNow now\<rparr>]\<rparr>"

text \<open>\<^verbatim>\<open>UPDATE mobiles SET ... WHERE id = ?\<close>, the assignment given as a function.\<close>

definition updateMobile :: "int \<Rightarrow> (mobile \<Rightarrow> mobile) \<Rightarrow> db \<Rightarrow> db" where
  "updateMobile mobileId f s =
     s\<lparr>db_mobiles := map (\<lambda>m. if m_id m = mobileId then f m else m) (db_mobiles s)\<rparr>"

text \<open>One statement of a request: it fails as the environment says, or it runs.\<close>

definition exec :: "env \<Rightarrow> nat \<Rightarrow> (db \<Rightarrow> db) \<Rightarrow> db \<Rightarrow> error + db" where
  "exec e k stmt s = (if fails e k then Inl (DbError k) else Inr (stmt s))"

definition andThen :: "error + db \<Rightarrow> (db \<Rightarrow> error + db) \<Rightarrow> error + db" where
  "andThen r f = (case r of Inl err \<Rightarrow> Inl err | Inr s \<Rightarrow> f s)"

subsection \<open>The admin route \<^verbatim>\<open>PATCH /orders/:id/status\<close>\<close>

text \<open>
  \<^verbatim>\<open>SELECT * FROM orders WHERE mobile_id = ? AND status = 'pending'
  ORDER BY requested_datetime ASC LIMIT 1\<close>. The column holds the text the customer
  sent, and SQLite orders texts byte by byte: the first row is the one whose text is
  least, which is the earliest instant only when the texts are written alike (same
  format, same zone).
\<close>

definition nextPendingOrder :: "int \<Rightarrow> db \<Rightarrow> order option" where
  "nextPendingOrder mobileId s =
     (case sort_key (\<lambda>r. dt_text (o_requested_datetime r))
             (filter (\<lambda>r. o_mobile_id r = Some mobileId \<and> o_status r = ''pending'') (db_orders s)) of
        [] \<Rightarrow> None
      | r # _ \<Rightarrow> Some r)"

text \<open>\<^verbatim>\<open>notes || fallback\<close>: a missing or empty note is falsy.\<close>

definition noteOr :: "string option \<Rightarrow> string \<Rightarrow> string" where
  "noteOr notes fallback =
     (case notes of None \<Rightarrow> fallback | Some n \<Rightarrow> if n = [] then fallback else n)"

text \<open>The truthiness of \<^verbatim>\<open>orderDetails.mobile_id\<close>: neither \<^verbatim>\<open>null\<close> nor 0.\<close>

definition boundMobile :: "order \<Rightarrow> int option" where
  "boundMobile r =
     (case o_mobile_id r of None \<Rightarrow> None | Some i \<Rightarrow> if i = 0 then None else Some i)"

text \<open>The promotion branch: the next order takes the unit.\<close>

definition promoteNext :: "env \<Rightarrow> order \<Rightarrow> int \<Rightarrow> order \<Rightarrow> db \<Rightarrow> error + db" where
  "promoteNext e orderDetails mobileId nextOrder s =
     andThen (exec e 4
        (updateMobile mobileId (\<lambda>m. m\<lparr>m_current_order_id := Some (o_id nextOrder),
                                      m_location_lat := o_location_lat orderDetails,
                                      m_location_lng := o_location_lng orderDetails\<rparr>)) s)
       (\<lambda>s. andThen (exec e 5 (updateOrderStatus (clock e 5) ''assigned'' (o_id nextOrder)) s)
         (\<lambda>s. exec e 6
            (insertLog (clock e 6) (o_id nextOrder) ''assigned'' (Some mobileId)
               ''Auto-assigned from queue.'') s))"

text \<open>
  The other branch: the unit is released. \<open>available_from\<close> becomes the text of
  \<^verbatim>\<open>datetime('now')\<close>, UTC to whole seconds and without a zone; \<^verbatim>\<open>new Date\<close> reads such a
  text as local time, that is as an instant earlier by the zone of the server.
\<close>

definition releaseMobile :: "env \<Rightarrow> order \<Rightarrow> int \<Rightarrow> db \<Rightarrow> error + db" where
  "releaseMobile e orderDetails mobileId s =
     exec e 4
       (updateMobile mobileId (\<lambda>m. m\<lparr>m_is_available := 1,
                                      m_current_order_id := None,
                                      m_available_from := sqlNow (clock e 4) - zone e,
                                      m_location_lat := o_location_lat orderDetails,
                                      m_location_lng := o_location_lng orderDetails\<rparr>)) s"

text \<open>
  The block guarded by \<^verbatim>\<open>orderDetails.mobile_id\<close>: statement 3 looks for the next
  order of the unit, statement 4 and the following write the branch taken.
\<close>

definition advanceQueue :: "env \<Rightarrow> order \<Rightarrow> db \<Rightarrow> error + db" where
  "advanceQueue e orderDetails s =
     (case boundMobile orderDetails of
        None \<Rightarrow> Inr s
      | Some mobileId \<Rightarrow>
          if fails e 3 then Inl (DbError 3)
          else (case nextPendingOrder mobileId s of
                  Some nextOrder \<Rightarrow> promoteNext e orderDetails mobileId nextOrder s
                | None \<Rightarrow> releaseMobile e orderDetails mobileId s))"

definition adminNote :: "string \<Rightarrow> string" where
  "adminNote status = ''Status updated to '' @ status @ '' by admin''"

text \<open>The statements between \<^verbatim>\<open>BEGIN TRANSACTION\<close> and \<^verbatim>\<open>COMMIT\<close>.\<close>

definition statusTransaction ::
  "env \<Rightarrow> int \<Rightarrow> string \<Rightarrow> string option \<Rightarrow> order \<Rightarrow> db \<Rightarrow> error + db" where
  "statusTransaction e orderId status notes orderDetails s =
     andThen (exec e 1 (updateOrderStatus (clock e 1) status orderId) s)
       (\<lambda>s. andThen
          (exec e 2
             (insertLog (clock e 2) orderId status (o_mobile_id orderDetails)
                (noteOr notes (adminNote status))) s)
          (\<lambda>s. if status = ''completed'' \<or> status = ''cancelled''
               then advanceQueue e orderDetails s
               else Inr s))"

text \<open>
  The handler, after \<^verbatim>\<open>verifyToken\<close> has let the request through. Statement 0 is the
  \<^verbatim>\<open>SELECT\<close> of the order; an error inside the transaction runs \<^verbatim>\<open>ROLLBACK\<close>, which
  restores the store of \<^verbatim>\<open>BEGIN TRANSACTION\<close>.
\<close>

definition adminUpdateStatus ::
  "env \<Rightarrow> int \<Rightarrow> string \<Rightarrow> string option \<Rightarrow> db \<Rightarrow> (error + unit) \<times> db" where
  "adminUpdateStatus e orderId status notes s =
     (if status \<notin> set validStatuses then (Inl InvalidStatus, s)
      else if fails e 0 then (Inl (DbError 0), s)
      else (case find (\<lambda>r. o_id r = orderId) (db_orders s) of
              None \<Rightarrow> (Inl OrderNotFound, s)
            | Some orderDetails \<Rightarrow>
                (case statusTransaction e orderId status notes orderDetails s of
                   Inl err \<Rightarrow> (Inl err, s)
                 | Inr s' \<Rightarrow> (Inr (), s'))))"

text \<open>
  What the client of the admin route receives: the status code and the \<^verbatim>\<open>error\<close> or
  \<^verbatim>\<open>message\<close> text. An error thrown inside the \<^verbatim>\<open>db.serialize\<close> callback is rethrown
  from an asynchronous function that nobody awaits, so no response is sent (\<open>None\<close>).
\<close>

definition adminResponse :: "error + unit \<Rightarrow> (int \<times> string) option" where
  "adminResponse r =
     (case r of
        Inr _ \<Rightarrow> Some (200, ''Status updated successfully'')
      | Inl InvalidStatus \<Rightarrow> Some (400, ''Invalid status'')
      | Inl OrderNotFound \<Rightarrow> Some (500, ''Failed to update status'')
      | Inl (DbError k) \<Rightarrow> (if k = 0 then Some (500, ''Failed to update status'') else None)
      | Inl _ \<Rightarrow> None)"

subsection \<open>The order route \<^verbatim>\<open>PATCH /:id/status\<close>\<close>

text \<open>
  Three statements, each awaited, with no transaction around them: the store keeps what
  ran before a failure. Statement 2 is
  \<^verbatim>\<open>UPDATE mobiles SET is_available = 1, current_order_id = NULL WHERE current_order_id = ?\<close>.
\<close>

definition releaseByOrder :: "int \<Rightarrow> db \<Rightarrow> db" where
  "releaseByOrder orderId s =
     s\<lparr>db_mobiles :=
         map (\<lambda>m. if m_current_order_id m = Some orderId
                   then m\<lparr>m_is_available := 1, m_current_order_id := None\<rparr> else m)
           (db_mobiles s)\<rparr>"

definition updateStatus ::
  "env \<Rightarrow> int \<Rightarrow> string \<Rightarrow> string option \<Rightarrow> db \<Rightarrow> (error + unit) \<times> db" where
  "updateStatus e orderId status notes s =
     (if status \<notin> set validStatuses then (Inl InvalidStatus, s)
      else if fails e 0 then (Inl (DbError 0), s)
      else
        let s1 = updateOrderStatus (clock e 0) status orderId s
        in if fails e 1 then (Inl (DbError 1), s1)
           else
             let s2 = insertLog (clock e 1) orderId status None (noteOr notes ''Status updated'') s1
             in if status = ''completed'' then
                  (if fails e 2 then (Inl (DbError 2), s2)
                   else (Inr (), releaseByOrder orderId s2))
                else (Inr (), s2))"

subsection \<open>The order routes \<^verbatim>\<open>POST /estimate\<close> and \<^verbatim>\<open>POST /\<close>\<close>

record order_data =
  vehicle_number :: string
  vehicle_type :: string
  service_type :: string
  requested_datetime :: datetime
  location_lat :: real
  location_lng :: real
  dirt_level :: int

text \<open>\<^verbatim>\<open>value.split ('+')\<close>\<close>

primrec split_on :: "char \<Rightarrow> string \<Rightarrow> string list" where
  "split_on sep [] = [[]]"
| "split_on sep (c # cs) =
     (if c = sep then [] # split_on sep cs
      else (case split_on sep cs of [] \<Rightarrow> [[c]] | w # ws \<Rightarrow> (c # w) # ws))"

definition validServices :: "string list" where
  "validServices = [''exterior'', ''interior'', ''exterior+interior'', ''polish'', ''wax'']"

definition validServiceType :: "string \<Rightarrow> bool" where
  "validServiceType v = list_all (\<lambda>service. service \<in> set validServices) (split_on CHR ''+'' v)"

text \<open>
  The chain \<^verbatim>\<open>validateOrder\<close> over the modelled fields. A date is readable by its
  type, so \<^verbatim>\<open>isISO8601\<close> has nothing left to reject; the optional customer fields are
  not modelled.
\<close>

definition validateOrder :: "order_data \<Rightarrow> bool" where
  "validateOrder d =
     (vehicle_number d \<noteq> [] \<and>
      vehicle_type d \<in> set [''sedan'', ''suv'', ''truck'', ''van'', ''motorcycle''] \<and>
      validServiceType (service_type d) \<and>
      - 90 \<le> location_lat d \<and> location_lat d \<le> 90 \<and>
      - 180 \<le> location_lng d \<and> location_lng d \<le> 180 \<and>
      1 \<le> dirt_level d \<and> dirt_level d \<le> 5)"

text \<open>
  The summary. \<^verbatim>\<open>calculatePrice\<close> is called with the distance of the unit; a \<^verbatim>\<open>NaN\<close>
  distance makes the sum and \<^verbatim>\<open>Math.round\<close> of it \<^verbatim>\<open>NaN\<close>, which is the price \<open>None\<close>.
\<close>

record order_summary =
  s_duration :: int
  s_price :: "int option"
  s_mobile_id :: int
  s_mobile_name :: string
  s_mobile_distance :: number

definition generateOrderSummary :: "order_data \<Rightarrow> mobile \<times> number \<Rightarrow> order_summary" where
  "generateOrderSummary orderData mobileData =
     (let duration = calculateDuration (dirt_level orderData) (service_type orderData);
          price = (case snd mobileData of
                     NaN \<Rightarrow> None
                   | Number distance \<Rightarrow>
                       Some (calculatePrice (dirt_level orderData) distance
                               (service_type orderData)))
      in \<lparr>s_duration = duration, s_price = price, s_mobile_id = m_id (fst mobileData),
          s_mobile_name = m_name (fst mobileData), s_mobile_distance = snd mobileData\<rparr>)"

text \<open>\<^verbatim>\<open>SELECT * FROM orders WHERE status NOT IN ('completed', 'cancelled')\<close>\<close>

definition activeOrders :: "db \<Rightarrow> order list" where
  "activeOrders s =
     filter (\<lambda>r. o_status r \<noteq> ''completed'' \<and> o_status r \<noteq> ''cancelled'') (db_orders s)"

text \<open>
  The steps of both routes, numbered for the environment: 0 and 1 are the two
  \<^verbatim>\<open>SELECT\<close>s, 2 is \<^verbatim>\<open>findBestMobile\<close> (it reads the clock), 3 the \<^verbatim>\<open>INSERT\<close> of the
  order, 4 the \<^verbatim>\<open>UPDATE\<close> of the unit, 5 the \<^verbatim>\<open>INSERT\<close> of the log entry, 6 the test that
  arms the timer (it reads the clock), 7 \<^verbatim>\<open>generatePDF\<close>.
\<close>

definition estimate :: "env \<Rightarrow> order_data \<Rightarrow> db \<Rightarrow> error + order_summary" where
  "estimate e orderData s =
     (if \<not> validateOrder orderData then Inl ValidationFailed
      else if fails e 0 then Inl (DbError 0)
      else if fails e 1 then Inl (DbError 1)
      else (case findBestMobile (rounding e) (clock e 2) (db_mobiles s)
                   (location_lat orderData) (location_lng orderData) (activeOrders s) of
              None \<Rightarrow> Inl NoMobileAvailable
            | Some bestMobile \<Rightarrow> Inr (generateOrderSummary orderData bestMobile)))"

text \<open>The rowid \<^verbatim>\<open>AUTOINCREMENT\<close> gives the next row: above every rowid ever used.\<close>

definition nextOrderId :: "db \<Rightarrow> int" where
  "nextOrderId s = fold max (map o_id (db_orders s)) (db_orders_seq s) + 1"

text \<open>
  \<^verbatim>\<open>INSERT INTO orders (...)\<close> with a price that is a number; \<open>updated_at\<close> is the column
  default \<^verbatim>\<open>CURRENT_TIMESTAMP\<close>.
\<close>

definition insertOrder ::
  "int \<Rightarrow> order_data \<Rightarrow> int \<Rightarrow> order_summary \<Rightarrow> mobile \<times> number \<Rightarrow> db \<Rightarrow> db" where
  "insertOrder now orderData price orderSummary bestMobile s =
     s\<lparr>db_orders := db_orders s @
         [\<lparr>o_id = nextOrderId s,
           o_service_type = service_type orderData,
           o_requested_datetime = requested_datetime orderData,
           o_location_lat = location_lat orderData,
           o_location_lng = location_lng orderData,
           o_dirt_level = dirt_level orderData,
           o_price = price,
           o_duration_minutes = s_duration orderSummary,
           o_distance_km = snd bestMobile,
           o_mobile_id = Some (m_id (fst bestMobile)),
           o_status = ''pending'',
           o_updated_at = sqlNow now\<rparr>],
       db_orders_seq := nextOrderId s\<rparr>"

text \<open>
  \<^verbatim>\<open>POST /\<close>. The result is the response, the store as the request leaves it, and the
  timer it has armed, if any: the order and the unit the deferred task will work on, and
  whether the \<^verbatim>\<open>const io\<close> that the callback uses gets initialised. Its declaration stands
  after \<^verbatim>\<open>await generatePDF\<close>, in the block that encloses the callback, so it stays
  uninitialised when \<^verbatim>\<open>generatePDF\<close> fails. No statement runs inside a transaction. A \<^verbatim>\<open>NaN\<close> price is
  bound as \<^verbatim>\<open>NULL\<close>, which the column \<^verbatim>\<open>price REAL NOT NULL\<close> rejects: the \<^verbatim>\<open>INSERT\<close> fails.
\<close>

definition createJob ::
  "env \<Rightarrow> order_data \<Rightarrow> db \<Rightarrow>
     (error + int \<times> order_summary) \<times> db \<times> (int \<times> int \<times> bool) option" where
  "createJob e orderData s =
     (if \<not> validateOrder orderData then (Inl ValidationFailed, s, None)
      else if fails e 0 then (Inl (DbError 0), s, None)
      else if fails e 1 then (Inl (DbError 1), s, None)
      else (case findBestMobile (rounding e) (clock e 2) (db_mobiles s)
                   (location_lat orderData) (location_lng orderData) (activeOrders s) of
              None \<Rightarrow> (Inl NoMobileAvailable, s, None)
            | Some bestMobile \<Rightarrow>
                let orderSummary = generateOrderSummary orderData bestMobile;
                    orderId = nextOrderId s;
                    mobileId = m_id (fst bestMobile)
                in (case s_price orderSummary of
                      None \<Rightarrow> (Inl (DbError 3), s, None)
                    | Some price \<Rightarrow>
                   if fails e 3 then (Inl (DbError 3), s, None)
                   else
                     let s1 = insertOrder (clock e 3) orderData price orderSummary bestMobile s
                     in if fails e 4 then (Inl (DbError 4), s1, None)
                        else
                          let estimatedEndTime = clock e 4 + s_duration orderSummary * 60000;
                              s2 = updateMobile mobileId
                                     (\<lambda>m. m\<lparr>m_is_available := 0,
                                             m_current_order_id := Some orderId,
                                             m_available_from := estimatedEndTime\<rparr>) s1
                          in if fails e 5 then (Inl (DbError 5), s2, None)
                             else
                               let s3 = insertLog (clock e 5) orderId ''pending'' (Some mobileId)
                                          ''Order created and mobile assigned'' s2
                               in if trulyAvailable (clock e 6) (fst bestMobile) then
                                    (if fails e 7
                                     then (Inl PdfError, s3, Some (orderId, mobileId, False))
                                     else (Inr (orderId, orderSummary), s3,
                                           Some (orderId, mobileId, True)))
                                  else
                                    (if fails e 7 then (Inl PdfError, s3, None)
                                     else (Inr (orderId, orderSummary), s3, None)))))"

text \<open>
  The callback of the timer, given whether \<^verbatim>\<open>io\<close> is initialised when it runs.
  Statement 0 is
  \<^verbatim>\<open>UPDATE orders SET status = 'assigned', ... WHERE id = ? AND status = 'pending'\<close>;
  when it fails, or changes no row, the callback returns. Otherwise it hands statement 1,
  the \<^verbatim>\<open>INSERT\<close> of the log entry, to the store and goes on to \<^verbatim>\<open>io.to (...)\<close>. With
  \<^verbatim>\<open>io\<close> uninitialised that throws a \<^verbatim>\<open>ReferenceError\<close> which nothing catches: the process
  exits, and the statement just handed over does not run. A failure of statement 1 is
  only printed.
\<close>

datatype fired = Returned | Confirmed | Exited

definition autoUpdate :: "env \<Rightarrow> bool \<Rightarrow> int \<Rightarrow> int \<Rightarrow> db \<Rightarrow> fired \<times> db" where
  "autoUpdate e io orderId mobileId s =
     (if fails e 0 then (Returned, s)
      else
        let changes = length (filter (\<lambda>r. o_id r = orderId \<and> o_status r = ''pending'') (db_orders s));
            s1 = s\<lparr>db_orders :=
                    map (\<lambda>r. if o_id r = orderId \<and> o_status r = ''pending''
                              then r\<lparr>o_status := ''assigned'', o_updated_at := sqlNow (clock e 0)\<rparr>
                              else r)
                      (db_orders s)\<rparr>
        in if changes = 0 then (Returned, s1)
           else if \<not> io then (Exited, s1)
           else if fails e 1 then (Confirmed, s1)
           else (Confirmed,
                 insertLog (clock e 1) orderId ''assigned'' (Some mobileId)
                   ''Order automatically confirmed and assigned'' s1))"

subsection \<open>Notions used to state the properties\<close>

text \<open>The distance \<^verbatim>\<open>findBestMobile\<close> computes for a unit that is free now.\<close>

definition mobileDistance :: "rounding \<Rightarrow> real \<Rightarrow> real \<Rightarrow> mobile \<Rightarrow> number" where
  "mobileDistance rd customerLat customerLng mobile =
     calculateDistance rd (m_location_lat mobile) (m_location_lng mobile) customerLat customerLng"

text \<open>
  How a distance \<open>d\<close> that the loop of scenario A holds fares against the distance of
  another unit: a \<open>NaN\<close> never displaces it.
\<close>

definition nearerThan :: "real \<Rightarrow> number \<Rightarrow> bool" where
  "nearerThan d n = (case n of NaN \<Rightarrow> True | Number d' \<Rightarrow> d < d')"

definition notFartherThan :: "real \<Rightarrow> number \<Rightarrow> bool" where
  "notFartherThan d n = (case n of NaN \<Rightarrow> True | Number d' \<Rightarrow> d \<le> d')"

subsection \<open>A small fleet and a day of requests\<close>

text \<open>
  Three of the seeded units. Alpha is free from time 0; Beta and Gamma carry the flag 1
  but become available after 30 and 60 minutes.
\<close>

definition unitAlpha :: mobile where
  "unitAlpha = \<lparr>m_id = 1, m_name = ''Mobile Unit Alpha'', m_location_lat = 32.0853,
     m_location_lng = 34.7818, m_available_from = 0, m_is_available = 1,
     m_current_order_id = None\<rparr>"

definition unitBeta :: mobile where
  "unitBeta = \<lparr>m_id = 2, m_name = ''Mobile Unit Beta'', m_location_lat = 32.0753,
     m_location_lng = 34.7918, m_available_from = 1800000, m_is_available = 1,
     m_current_order_id = None\<rparr>"

definition unitGamma :: mobile where
  "unitGamma = \<lparr>m_id = 3, m_name = ''Mobile Unit Gamma'', m_location_lat = 32.0953,
     m_location_lng = 34.7718, m_available_from = 3600000, m_is_available = 1,
     m_current_order_id = None\<rparr>"

text \<open>An order in flight on Beta, away from where Beta stands.\<close>

definition orderOnBeta :: order where
  "orderOnBeta = \<lparr>o_id = 7, o_service_type = ''interior'', o_requested_datetime = \<lparr>dt_text = ''1970-01-01T00:15:00.000Z'', dt_instant = 900000\<rparr>,
     o_location_lat = 32.1, o_location_lng = 34.8, o_dirt_level = 2, o_price = 92,
     o_duration_minutes = 50, o_distance_km = Number 1, o_mobile_id = Some 2,
     o_status = ''washing'', o_updated_at = 0\<rparr>"

text \<open>
  An environment in which no statement fails, and one in which exactly one does; in both
  nothing is rounded and the server runs on UTC.
\<close>

definition calm :: "int \<Rightarrow> env" where
  "calm t = \<lparr>fails = (\<lambda>k. False), clock = (\<lambda>k. t), rounding = (\<lambda>lat1 lng1 lat2 lng2. 0),
     zone = 0\<rparr>"

definition failingAt :: "nat \<Rightarrow> int \<Rightarrow> env" where
  "failingAt j t = \<lparr>fails = (\<lambda>k. k = j), clock = (\<lambda>k. t),
     rounding = (\<lambda>lat1 lng1 lat2 lng2. 0), zone = 0\<rparr>"

text \<open>
  Two requests placed where Alpha stands, so that the distances are 0. The texts of the
  dates are those of the instants, counted from the epoch.
\<close>

definition requestOne :: order_data where
  "requestOne = \<lparr>vehicle_number = ''12-345-67'', vehicle_type = ''sedan'',
     service_type = ''exterior'',
     requested_datetime = \<lparr>dt_text = ''1970-01-01T02:00:00.000Z'', dt_instant = 7200000\<rparr>,
     location_lat = 32.0853, location_lng = 34.7818, dirt_level = 3\<rparr>"

definition requestTwo :: order_data where
  "requestTwo = \<lparr>vehicle_number = ''76-543-21'', vehicle_type = ''suv'',
     service_type = ''polish+wax'',
     requested_datetime = \<lparr>dt_text = ''1970-01-01T03:00:00.000Z'', dt_instant = 10800000\<rparr>,
     location_lat = 32.0853, location_lng = 34.7818, dirt_level = 1\<rparr>"

definition orderOne :: order where
  "orderOne = \<lparr>o_id = 1, o_service_type = ''exterior'',
     o_requested_datetime = \<lparr>dt_text = ''1970-01-01T02:00:00.000Z'', dt_instant = 7200000\<rparr>,
     o_location_lat = 32.0853, o_location_lng = 34.7818, o_dirt_level = 3, o_price = 110,
     o_duration_minutes = 60, o_distance_km = Number 0, o_mobile_id = Some 1,
     o_status = ''pending'', o_updated_at = 0\<rparr>"

definition orderTwo :: order where
  "orderTwo = \<lparr>o_id = 2, o_service_type = ''polish+wax'',
     o_requested_datetime = \<lparr>dt_text = ''1970-01-01T03:00:00.000Z'', dt_instant = 10800000\<rparr>,
     o_location_lat = 32.0853, o_location_lng = 34.7818, o_dirt_level = 1, o_price = 70,
     o_duration_minutes = 65, o_distance_km = Number 0, o_mobile_id = Some 1,
     o_status = ''pending'', o_updated_at = 60000\<rparr>"

definition logCreated :: "int \<Rightarrow> int \<Rightarrow> activity_log" where
  "logCreated orderId t = \<lparr>l_order_id = orderId, l_status = ''pending'', l_mobile_id = Some 1,
     l_notes = ''Order created and mobile assigned'', l_timestamp = t\<rparr>"

definition logConfirmed :: activity_log where
  "logConfirmed = \<lparr>l_order_id = 1, l_status = ''assigned'', l_mobile_id = Some 1,
     l_notes = ''Order automatically confirmed and assigned'', l_timestamp = 180000\<rparr>"

text \<open>
  The store at the start of the day, after the first order (time 0), after the second
  (one minute later, queued on the busy Alpha), and after the timer of the first order
  has fired (at three minutes).
\<close>

definition dbMorning :: db where
  "dbMorning = \<lparr>db_orders = [], db_orders_seq = 0, db_mobiles = [unitAlpha],
     db_activity_logs = []\<rparr>"

definition dbOneOrder :: db where
  "dbOneOrder = \<lparr>db_orders = [orderOne], db_orders_seq = 1,
     db_mobiles = [unitAlpha\<lparr>m_available_from := 3600000, m_is_available := 0,
                             m_current_order_id := Some 1\<rparr>],
     db_activity_logs = [logCreated 1 0]\<rparr>"

definition dbTwoOrders :: db where
  "dbTwoOrders = \<lparr>db_orders = [orderOne, orderTwo], db_orders_seq = 2,
     db_mobiles = [unitAlpha\<lparr>m_available_from := 3960000, m_is_available := 0,
                             m_current_order_id := Some 2\<rparr>],
     db_activity_logs = [logCreated 1 0, logCreated 2 60000]\<rparr>"

definition dbConfirmed :: db where
  "dbConfirmed = \<lparr>db_orders = [orderOne\<lparr>o_status := ''assigned'', o_updated_at := 180000\<rparr>,
                                orderTwo], db_orders_seq = 2,
     db_mobiles = [unitAlpha\<lparr>m_available_from := 3960000, m_is_available := 0,
                             m_current_order_id := Some 2\<rparr>],
     db_activity_logs = [logCreated 1 0, logCreated 2 60000, logConfirmed]\<rparr>"

text \<open>
  The store after the administrator has completed the first order at ten minutes and the
  second order has been promoted.
\<close>

definition dbPromoted :: db where
  "dbPromoted = \<lparr>db_orders = [orderOne\<lparr>o_status := ''completed'', o_updated_at := 600000\<rparr>,
                               orderTwo\<lparr>o_status := ''assigned'', o_updated_at := 600000\<rparr>],
     db_orders_seq = 2,
     db_mobiles = [unitAlpha\<lparr>m_available_from := 3960000, m_is_available := 0,
                             m_current_order_id := Some 2\<rparr>],
     db_activity_logs = [logCreated 1 0, logCreated 2 60000, logConfirmed,
       \<lparr>l_order_id = 1, l_status = ''completed'', l_mobile_id = Some 1,
        l_notes = ''Status updated to completed by admin'', l_timestamp = 600000\<rparr>,
       \<lparr>l_order_id = 2, l_status = ''assigned'', l_mobile_id = Some 1,
        l_notes = ''Auto-assigned from queue.'', l_timestamp = 600000\<rparr>]\<rparr>"

text \<open>
  The day goes on: the administrator completes the second order at 700 seconds, which
  releases Alpha, sets the first order back to \<^verbatim>\<open>pending\<close> at 800 seconds, and cancels
  the second order at 900 seconds.
\<close>

definition dbReleased :: db where
  "dbReleased = snd (adminUpdateStatus (calm 700000) 2 ''completed'' None dbPromoted)"

definition dbRequeued :: db where
  "dbRequeued = snd (adminUpdateStatus (calm 800000) 1 ''pending'' None dbReleased)"

definition dbRepromoted :: db where
  "dbRepromoted = snd (adminUpdateStatus (calm 900000) 2 ''cancelled'' None dbRequeued)"

text \<open>
  A free unit at 12 degrees north on the prime meridian and a customer at its antipode,
  12 degrees south on the date line. There \<^verbatim>\<open>a\<close> is 1 on the reals, and the doubles give
  1.0000000000000002, one unit in the last place above.
\<close>

definition unitNorth :: mobile where
  "unitNorth = \<lparr>m_id = 1, m_name = ''Mobile Unit Alpha'', m_location_lat = 12,
     m_location_lng = 0, m_available_from = 0, m_is_available = 1,
     m_current_order_id = None\<rparr>"

definition requestSouth :: order_data where
  "requestSouth = \<lparr>vehicle_number = ''12-345-67'', vehicle_type = ''sedan'',
     service_type = ''exterior'',
     requested_datetime = \<lparr>dt_text = ''1970-01-01T02:00:00.000Z'', dt_instant = 7200000\<rparr>,
     location_lat = - 12, location_lng = 180, dirt_level = 3\<rparr>"

definition oneUlp :: rounding where
  "oneUlp lat1 lng1 lat2 lng2 = 1 / 2 ^ 52"

definition roundedUp :: "int \<Rightarrow> env" where
  "roundedUp t = \<lparr>fails = (\<lambda>k. False), clock = (\<lambda>k. t), rounding = oneUlp, zone = 0\<rparr>"

definition dbNorth :: db where
  "dbNorth = \<lparr>db_orders = [], db_orders_seq = 0, db_mobiles = [unitNorth],
     db_activity_logs = []\<rparr>"

section \<open>Properties\<close>

subsection \<open>Dispatch: a unit that is free now\<close>

lemma nearerThan_simps [simp]:
  "nearerThan d NaN" "nearerThan d (Number d') = (d < d')"
  by (simp_all add: nearerThan_def)

lemma notFartherThan_simps [simp]:
  "notFartherThan d NaN" "notFartherThan d (Number d') = (d \<le> d')"
  by (simp_all add: notFartherThan_def)

lemma nearerThan_trans: "d < d' \<Longrightarrow> nearerThan d' n \<Longrightarrow> nearerThan d n"
  by (cases n) auto

lemma notFartherThan_trans: "d \<le> d' \<Longrightarrow> notFartherThan d' n \<Longrightarrow> notFartherThan d n"
  by (cases n) auto

lemma nearerThan_weaken: "nearerThan d n \<Longrightarrow> notFartherThan d n"
  by (cases n) auto

lemma closestStep_NaN:
  "mobileDistance rd clat clng x = NaN \<Longrightarrow> closestStep rd clat clng acc x = acc"
  by (simp add: closestStep_def mobileDistance_def)

lemma closestStep_Some:
  "mobileDistance rd clat clng x = Number dx \<Longrightarrow>
     closestStep rd clat clng (Some (a, da)) x =
       (if dx < da then Some (x, dx) else Some (a, da))"
  by (simp add: closestStep_def mobileDistance_def)

lemma closestStep_None:
  "mobileDistance rd clat clng x = Number dx \<Longrightarrow> closestStep rd clat clng None x = Some (x, dx)"
  by (simp add: closestStep_def mobileDistance_def)

lemma foldl_closestStep_Some:
  "\<exists>r dr. foldl (closestStep rd clat clng) (Some (a, da)) xs = Some (r, dr) \<and>
     ((r = a \<and> dr = da \<and> (\<forall>x\<in>set xs. notFartherThan da (mobileDistance rd clat clng x))) \<or>
      (\<exists>ys zs. xs = ys @ r # zs \<and> mobileDistance rd clat clng r = Number dr \<and> dr < da \<and>
         (\<forall>y\<in>set ys. nearerThan dr (mobileDistance rd clat clng y)) \<and>
         (\<forall>z\<in>set zs. notFartherThan dr (mobileDistance rd clat clng z))))"
proof (induction xs arbitrary: a da)
  case Nil
  show ?case by simp
next
  case (Cons x xs)
  let ?md = "mobileDistance rd clat clng"
  let ?step = "closestStep rd clat clng"
  show ?case
  proof (cases "?md x")
    case NaN
    from Cons.IH [of a da] obtain r dr where
      run: "foldl ?step (Some (a, da)) xs = Some (r, dr)" and
      d: "(r = a \<and> dr = da \<and> (\<forall>y\<in>set xs. notFartherThan da (?md y))) \<or>
          (\<exists>ys zs. xs = ys @ r # zs \<and> ?md r = Number dr \<and> dr < da \<and>
             (\<forall>y\<in>set ys. nearerThan dr (?md y)) \<and> (\<forall>z\<in>set zs. notFartherThan dr (?md z)))"
      by blast
    have run': "foldl ?step (Some (a, da)) (x # xs) = Some (r, dr)"
      using run closestStep_NaN [OF NaN] by simp
    from d show ?thesis
    proof
      assume "r = a \<and> dr = da \<and> (\<forall>y\<in>set xs. notFartherThan da (?md y))"
      then have "r = a \<and> dr = da \<and> (\<forall>y\<in>set (x # xs). notFartherThan da (?md y))"
        using NaN by simp
      then show ?thesis using run' by blast
    next
      assume "\<exists>ys zs. xs = ys @ r # zs \<and> ?md r = Number dr \<and> dr < da \<and>
             (\<forall>y\<in>set ys. nearerThan dr (?md y)) \<and> (\<forall>z\<in>set zs. notFartherThan dr (?md z))"
      then obtain ys zs where "xs = ys @ r # zs" "?md r = Number dr" "dr < da"
          "\<forall>y\<in>set ys. nearerThan dr (?md y)" "\<forall>z\<in>set zs. notFartherThan dr (?md z)"
        by blast
      then have "x # xs = (x # ys) @ r # zs \<and> ?md r = Number dr \<and> dr < da \<and>
          (\<forall>y\<in>set (x # ys). nearerThan dr (?md y)) \<and> (\<forall>z\<in>set zs. notFartherThan dr (?md z))"
        using NaN by simp
      then show ?thesis using run' by blast
    qed
  next
    case (Number dx)
    show ?thesis
    proof (cases "dx < da")
      case True
      from Cons.IH [of x dx] obtain r dr where
        run: "foldl ?step (Some (x, dx)) xs = Some (r, dr)" and
        d: "(r = x \<and> dr = dx \<and> (\<forall>y\<in>set xs. notFartherThan dx (?md y))) \<or>
            (\<exists>ys zs. xs = ys @ r # zs \<and> ?md r = Number dr \<and> dr < dx \<and>
               (\<forall>y\<in>set ys. nearerThan dr (?md y)) \<and> (\<forall>z\<in>set zs. notFartherThan dr (?md z)))"
        by blast
      have run': "foldl ?step (Some (a, da)) (x # xs) = Some (r, dr)"
        using run True closestStep_Some [OF Number] by simp
      from d show ?thesis
      proof
        assume "r = x \<and> dr = dx \<and> (\<forall>y\<in>set xs. notFartherThan dx (?md y))"
        then have "x # xs = [] @ r # xs \<and> ?md r = Number dr \<and> dr < da \<and>
            (\<forall>y\<in>set []. nearerThan dr (?md y)) \<and> (\<forall>z\<in>set xs. notFartherThan dr (?md z))"
          using True Number by simp
        then show ?thesis using run' by blast
      next
        assume "\<exists>ys zs. xs = ys @ r # zs \<and> ?md r = Number dr \<and> dr < dx \<and>
               (\<forall>y\<in>set ys. nearerThan dr (?md y)) \<and> (\<forall>z\<in>set zs. notFartherThan dr (?md z))"
        then obtain ys zs where "xs = ys @ r # zs" "?md r = Number dr" "dr < dx"
            "\<forall>y\<in>set ys. nearerThan dr (?md y)" "\<forall>z\<in>set zs. notFartherThan dr (?md z)"
          by blast
        then have "x # xs = (x # ys) @ r # zs \<and> ?md r = Number dr \<and> dr < da \<and>
            (\<forall>y\<in>set (x # ys). nearerThan dr (?md y)) \<and> (\<forall>z\<in>set zs. notFartherThan dr (?md z))"
          using True Number by simp
        then show ?thesis using run' by blast
      qed
    next
      case False
      from Cons.IH [of a da] obtain r dr where
        run: "foldl ?step (Some (a, da)) xs = Some (r, dr)" and
        d: "(r = a \<and> dr = da \<and> (\<forall>y\<in>set xs. notFartherThan da (?md y))) \<or>
            (\<exists>ys zs. xs = ys @ r # zs \<and> ?md r = Number dr \<and> dr < da \<and>
               (\<forall>y\<in>set ys. nearerThan dr (?md y)) \<and> (\<forall>z\<in>set zs. notFartherThan dr (?md z)))"
        by blast
      have run': "foldl ?step (Some (a, da)) (x # xs) = Some (r, dr)"
        using run False closestStep_Some [OF Number] by simp
      from d show ?thesis
      proof
        assume "r = a \<and> dr = da \<and> (\<forall>y\<in>set xs. notFartherThan da (?md y))"
        then have "r = a \<and> dr = da \<and> (\<forall>y\<in>set (x # xs). notFartherThan da (?md y))"
          using False Number by simp
        then show ?thesis using run' by blast
      next
        assume "\<exists>ys zs. xs = ys @ r # zs \<and> ?md r = Number dr \<and> dr < da \<and>
               (\<forall>y\<in>set ys. nearerThan dr (?md y)) \<and> (\<forall>z\<in>set zs. notFartherThan dr (?md z))"
        then obtain ys zs where "xs = ys @ r # zs" "?md r = Number dr" "dr < da"
            "\<forall>y\<in>set ys. nearerThan dr (?md y)" "\<forall>z\<in>set zs. notFartherThan dr (?md z)"
          by blast
        then have "x # xs = (x # ys) @ r # zs \<and> ?md r = Number dr \<and> dr < da \<and>
            (\<forall>y\<in>set (x # ys). nearerThan dr (?md y)) \<and> (\<forall>z\<in>set zs. notFartherThan dr (?md z))"
          using False Number by simp
        then show ?thesis using run' by blast
      qed
    qed
  qed
qed

lemma foldl_closestStep_all_NaN:
  "\<forall>x\<in>set xs. mobileDistance rd clat clng x = NaN \<Longrightarrow>
     foldl (closestStep rd clat clng) acc xs = acc"
  by (induction xs) (simp_all add: closestStep_NaN)

lemma foldl_closestStep_None:
  assumes "\<exists>x\<in>set xs. mobileDistance rd clat clng x \<noteq> NaN"
  shows "\<exists>r dr ys zs. foldl (closestStep rd clat clng) None xs = Some (r, dr) \<and>
           mobileDistance rd clat clng r = Number dr \<and> xs = ys @ r # zs \<and>
           (\<forall>y\<in>set ys. nearerThan dr (mobileDistance rd clat clng y)) \<and>
           (\<forall>z\<in>set zs. notFartherThan dr (mobileDistance rd clat clng z))"
  using assms
proof (induction xs)
  case Nil
  then show ?case by simp
next
  case (Cons x xs)
  let ?md = "mobileDistance rd clat clng"
  let ?step = "closestStep rd clat clng"
  show ?case
  proof (cases "?md x")
    case NaN
    with Cons.prems have "\<exists>y\<in>set xs. ?md y \<noteq> NaN" by auto
    from Cons.IH [OF this] obtain r dr ys zs where
      run: "foldl ?step None xs = Some (r, dr)" and h: "?md r = Number dr" "xs = ys @ r # zs"
        "\<forall>y\<in>set ys. nearerThan dr (?md y)" "\<forall>z\<in>set zs. notFartherThan dr (?md z)"
      by blast
    have run': "foldl ?step None (x # xs) = Some (r, dr)"
      using run closestStep_NaN [OF NaN] by simp
    from h have "?md r = Number dr \<and> x # xs = (x # ys) @ r # zs \<and>
        (\<forall>y\<in>set (x # ys). nearerThan dr (?md y)) \<and> (\<forall>z\<in>set zs. notFartherThan dr (?md z))"
      using NaN by simp
    then show ?thesis using run' by blast
  next
    case (Number dx)
    from foldl_closestStep_Some [of rd clat clng x dx xs] obtain r dr where
      run: "foldl ?step (Some (x, dx)) xs = Some (r, dr)" and
      d: "(r = x \<and> dr = dx \<and> (\<forall>y\<in>set xs. notFartherThan dx (?md y))) \<or>
          (\<exists>ys zs. xs = ys @ r # zs \<and> ?md r = Number dr \<and> dr < dx \<and>
             (\<forall>y\<in>set ys. nearerThan dr (?md y)) \<and> (\<forall>z\<in>set zs. notFartherThan dr (?md z)))"
      by blast
    have run': "foldl ?step None (x # xs) = Some (r, dr)"
      using run closestStep_None [OF Number] by simp
    from d show ?thesis
    proof
      assume "r = x \<and> dr = dx \<and> (\<forall>y\<in>set xs. notFartherThan dx (?md y))"
      then have "?md r = Number dr \<and> x # xs = [] @ r # xs \<and>
          (\<forall>y\<in>set []. nearerThan dr (?md y)) \<and> (\<forall>z\<in>set xs. notFartherThan dr (?md z))"
        using Number by simp
      then show ?thesis using run' by blast
    next
      assume "\<exists>ys zs. xs = ys @ r # zs \<and> ?md r = Number dr \<and> dr < dx \<and>
             (\<forall>y\<in>set ys. nearerThan dr (?md y)) \<and> (\<forall>z\<in>set zs. notFartherThan dr (?md z))"
      then obtain ys zs where "xs = ys @ r # zs" "?md r = Number dr" "dr < dx"
          "\<forall>y\<in>set ys. nearerThan dr (?md y)" "\<forall>z\<in>set zs. notFartherThan dr (?md z)"
        by blast
      then have "?md r = Number dr \<and> x # xs = (x # ys) @ r # zs \<and>
          (\<forall>y\<in>set (x # ys). nearerThan dr (?md y)) \<and> (\<forall>z\<in>set zs. notFartherThan dr (?md z))"
        using Number by simp
      then show ?thesis using run' by blast
    qed
  qed
qed

lemma filter_eq_append_Cons:
  "filter P xs = ys @ r # zs \<Longrightarrow>
     \<exists>us vs. xs = us @ r # vs \<and> P r \<and> filter P us = ys \<and> filter P vs = zs"
proof (induction xs arbitrary: ys)
  case Nil
  then show ?case by simp
next
  case (Cons x xs)
  show ?case
  proof (cases "P x")
    case False
    with Cons.prems have "filter P xs = ys @ r # zs" by simp
    from Cons.IH [OF this] obtain us vs where
      "xs = us @ r # vs" "P r" "filter P us = ys" "filter P vs = zs" by blast
    with False have "x # xs = (x # us) @ r # vs \<and> P r \<and> filter P (x # us) = ys \<and> filter P vs = zs"
      by simp
    then show ?thesis by blast
  next
    case True
    with Cons.prems have eq: "x # filter P xs = ys @ r # zs" by simp
    show ?thesis
    proof (cases ys)
      case Nil
      with eq True have "x # xs = [] @ r # xs \<and> P r \<and> filter P [] = ys \<and> filter P xs = zs"
        by simp
      then show ?thesis by blast
    next
      case (Cons y ys')
      with eq have xy: "x = y" and rest: "filter P xs = ys' @ r # zs" by simp_all
      from Cons.IH [OF rest] obtain us vs where
        "xs = us @ r # vs" "P r" "filter P us = ys'" "filter P vs = zs" by blast
      with True xy Cons have
        "x # xs = (x # us) @ r # vs \<and> P r \<and> filter P (x # us) = ys \<and> filter P vs = zs"
        by simp
      then show ?thesis by blast
    qed
  qed
qed

text \<open>
  Scenario A chooses well among the free units whose distance is a number: the result is
  free, no such unit is nearer, none before it in the registry is as near, and the distance
  reported is its own, to two decimals. Units whose distance is \<open>NaN\<close> are passed over.
\<close>

lemma findBestMobile_nearest_free:
  assumes "\<exists>m\<in>set mobiles. trulyAvailable now m \<and> mobileDistance rd customerLat customerLng m \<noteq> NaN"
  shows "\<exists>best d before after.
           findBestMobile rd now mobiles customerLat customerLng inFlight =
             Some (best, toFixed2 (Number d)) \<and>
           mobileDistance rd customerLat customerLng best = Number d \<and>
           mobiles = before @ best # after \<and>
           trulyAvailable now best \<and>
           (\<forall>m\<in>set before. trulyAvailable now m \<longrightarrow>
              nearerThan d (mobileDistance rd customerLat customerLng m)) \<and>
           (\<forall>m\<in>set after. trulyAvailable now m \<longrightarrow>
              notFartherThan d (mobileDistance rd customerLat customerLng m))"
proof -
  let ?md = "mobileDistance rd customerLat customerLng"
  let ?free = "filter (trulyAvailable now) mobiles"
  from assms have ne: "?free \<noteq> []"
    by (auto simp: filter_empty_conv)
  from assms have "\<exists>x\<in>set ?free. ?md x \<noteq> NaN" by auto
  from foldl_closestStep_None [OF this] obtain r dr ys zs where
    run: "foldl (closestStep rd customerLat customerLng) None ?free = Some (r, dr)" and
    num: "?md r = Number dr" and
    dec: "?free = ys @ r # zs" and
    lt: "\<forall>y\<in>set ys. nearerThan dr (?md y)" and le: "\<forall>z\<in>set zs. notFartherThan dr (?md z)"
    by blast
  from filter_eq_append_Cons [OF dec] obtain before after where
    split: "mobiles = before @ r # after" and free: "trulyAvailable now r" and
    ys: "filter (trulyAvailable now) before = ys" and zs: "filter (trulyAvailable now) after = zs"
    by blast
  have res: "findBestMobile rd now mobiles customerLat customerLng inFlight =
      Some (r, toFixed2 (Number dr))"
    using ne run by (simp add: findBestMobile_def)
  have before: "\<forall>m\<in>set before. trulyAvailable now m \<longrightarrow> nearerThan dr (?md m)"
    using lt ys by auto
  have after: "\<forall>m\<in>set after. trulyAvailable now m \<longrightarrow> notFartherThan dr (?md m)"
    using le zs by auto
  from res num split free before after show ?thesis by blast
qed

lemma findBestMobile_all_NaN:
  assumes "\<exists>m\<in>set mobiles. trulyAvailable now m"
    and "\<forall>m\<in>set mobiles. trulyAvailable now m \<longrightarrow> mobileDistance rd customerLat customerLng m = NaN"
  shows "findBestMobile rd now mobiles customerLat customerLng inFlight = None"
proof -
  let ?free = "filter (trulyAvailable now) mobiles"
  from assms(1) have ne: "?free \<noteq> []" by (auto simp: filter_empty_conv)
  from assms(2) have "\<forall>x\<in>set ?free. mobileDistance rd customerLat customerLng x = NaN" by simp
  from foldl_closestStep_all_NaN [OF this]
  have "foldl (closestStep rd customerLat customerLng) None ?free = None" .
  with ne show ?thesis by (simp add: findBestMobile_def)
qed

lemma antipode_term:
  "sin ((- 12 - 12) * pi / 180 / 2) * sin ((- 12 - 12) * pi / 180 / 2) +
     cos (12 * pi / 180) * cos (- 12 * pi / 180) *
     sin ((180 - 0) * pi / 180 / 2) * sin ((180 - 0) * pi / 180 / 2) = (1::real)"
proof -
  have e1: "(- 12 - 12) * pi / 180 / 2 = - (12 * pi / 180)" by simp
  have e2: "(180 - 0) * pi / 180 / 2 = pi / 2" by simp
  have e3: "- 12 * pi / 180 = - (12 * pi / 180)" by simp
  have unit: "sin (pi / 15) * sin (pi / 15) + cos (pi / 15) * cos (pi / 15) = (1::real)"
    using sin_cos_squared_add [of "pi / 15"] by (simp add: power2_eq_square)
  show ?thesis
    unfolding e1 e2 e3 sin_minus cos_minus sin_pi_half
    by (simp add: unit)
qed

lemma nan_at_antipode: "calculateDistance oneUlp 12 0 (- 12) 180 = NaN"
proof -
  have "(1::real) < 1 + 1 / 2 ^ 52" by simp
  then show ?thesis
    unfolding calculateDistance_def Let_def oneUlp_def antipode_term by simp
qed

text \<open>
  Claim C1. With a free unit in the registry \<^verbatim>\<open>findBestMobile\<close> should return a free
  unit of minimal distance, the first of them in registry order. It does when the distance
  of some free unit is a number (\<open>findBestMobile_nearest_free\<close>). It returns nothing when
  the distances of the free units are \<^verbatim>\<open>NaN\<close>, although its own log line says that a unit is
  available and the closest is being found. A free unit at 12 degrees north, 0 degrees
  east and a customer at 12 degrees south, 180 degrees east, a location the request
  validation accepts: the doubles give \<^verbatim>\<open>a = 1.0000000000000002\<close>, the square root of
  \<^verbatim>\<open>1 - a\<close> is \<^verbatim>\<open>NaN\<close>, so is the distance, \<^verbatim>\<open>NaN < Infinity\<close> is false, \<^verbatim>\<open>closestMobile\<close>
  stays \<^verbatim>\<open>null\<close>, and \<^verbatim>\<open>POST /\<close> answers that no unit is available.
\<close>

theorem findBestMobile_misses_free_unit:
  "validateOrder requestSouth \<and>
   trulyAvailable 0 unitNorth \<and>
   mobileDistance oneUlp (location_lat requestSouth) (location_lng requestSouth) unitNorth = NaN \<and>
   findBestMobile oneUlp 0 [unitNorth] (location_lat requestSouth) (location_lng requestSouth) [] =
     None \<and>
   createJob (roundedUp 0) requestSouth dbNorth = (Inl NoMobileAvailable, dbNorth, None)"
proof -
  have v: "validateOrder requestSouth"
    by (simp add: validateOrder_def requestSouth_def validServiceType_def validServices_def)
  have free: "trulyAvailable 0 unitNorth"
    by (simp add: trulyAvailable_def unitNorth_def)
  have nan: "mobileDistance oneUlp (location_lat requestSouth) (location_lng requestSouth)
      unitNorth = NaN"
    by (simp add: mobileDistance_def requestSouth_def unitNorth_def nan_at_antipode)
  have none: "findBestMobile oneUlp 0 [unitNorth] (location_lat requestSouth)
      (location_lng requestSouth) [] = None"
    by (rule findBestMobile_all_NaN) (simp_all add: free nan)
  have env: "\<And>k. fails (roundedUp 0) k = False" "rounding (roundedUp 0) = oneUlp"
    "\<And>k. clock (roundedUp 0) k = 0"
    by (simp_all add: roundedUp_def)
  have db: "db_mobiles dbNorth = [unitNorth]" "activeOrders dbNorth = []"
    by (simp_all add: dbNorth_def activeOrders_def)
  have job: "createJob (roundedUp 0) requestSouth dbNorth = (Inl NoMobileAvailable, dbNorth, None)"
    by (simp add: createJob_def v env db none)
  from v free nan none job show ?thesis by (intro conjI)
qed

subsection \<open>Dispatch: every unit busy\<close>

lemma sort_key_head:
  assumes "sort_key f xs = y # ys"
  shows "y \<in> set xs \<and> (\<forall>x\<in>set xs. f y \<le> f x)"
proof -
  have "sorted (map f (sort_key f xs))" by (rule sorted_sort_key)
  with assms have "\<forall>x\<in>set ys. f y \<le> f x" by simp
  moreover have "set xs = set (y # ys)" using assms set_sort [of f xs] by simp
  ultimately show ?thesis by auto
qed

lemma sort_key_Nil_iff: "sort_key f xs = [] \<longleftrightarrow> xs = []"
proof -
  have "length (sort_key f xs) = length xs" by (rule length_sort)
  then show ?thesis by (metis length_0_conv)
qed

lemma sort_key_nonempty: "xs \<noteq> [] \<Longrightarrow> \<exists>y ys. sort_key f xs = y # ys"
  using sort_key_Nil_iff [of f xs] by (cases "sort_key f xs") auto

lemma lastOrderForMobile_None:
  "lastOrderForMobile inFlight m = None \<longleftrightarrow> (\<forall>r\<in>set inFlight. o_mobile_id r \<noteq> Some (m_id m))"
proof -
  let ?xs = "filter (\<lambda>ord. o_mobile_id ord = Some (m_id m)) inFlight"
  have "lastOrderForMobile inFlight m = None \<longleftrightarrow> sort_key (\<lambda>ord. - dt_instant (o_requested_datetime ord)) ?xs = []"
    by (simp add: lastOrderForMobile_def split: list.splits)
  also have "\<dots> \<longleftrightarrow> ?xs = []"
    by (rule sort_key_Nil_iff)
  also have "\<dots> \<longleftrightarrow> (\<forall>r\<in>set inFlight. o_mobile_id r \<noteq> Some (m_id m))"
    by (simp add: filter_empty_conv)
  finally show ?thesis .
qed

lemma lastOrderForMobile_Some:
  assumes "lastOrderForMobile inFlight m = Some r"
  shows "r \<in> set inFlight \<and> o_mobile_id r = Some (m_id m) \<and>
         (\<forall>r'\<in>set inFlight. o_mobile_id r' = Some (m_id m) \<longrightarrow>
            dt_instant (o_requested_datetime r') \<le> dt_instant (o_requested_datetime r))"
proof -
  let ?xs = "filter (\<lambda>ord. o_mobile_id ord = Some (m_id m)) inFlight"
  from assms obtain ys where "sort_key (\<lambda>ord. - dt_instant (o_requested_datetime ord)) ?xs = r # ys"
    by (auto simp: lastOrderForMobile_def split: list.splits)
  from sort_key_head [OF this]
  have "r \<in> set ?xs" and "\<forall>x\<in>set ?xs. - dt_instant (o_requested_datetime r) \<le> - dt_instant (o_requested_datetime x)"
    by blast+
  then show ?thesis by auto
qed

text \<open>
  Claim C2. If the registry is not empty and no unit is free now, \<^verbatim>\<open>findBestMobile\<close>
  returns a unit whose \<open>available_from\<close> is the earliest of all units, and the distance
  it reports is measured to the customer from the unit's effective position: the location
  of an in-flight order of that unit with the latest requested time if the unit has an
  in-flight order, the unit's own location otherwise.
\<close>

theorem findBestMobile_all_busy:
  assumes "mobiles \<noteq> []" and "\<forall>m\<in>set mobiles. \<not> trulyAvailable now m"
  shows "\<exists>best startLat startLng.
           findBestMobile rd now mobiles customerLat customerLng inFlight =
             Some (best, toFixed2 (calculateDistance rd startLat startLng customerLat customerLng)) \<and>
           best \<in> set mobiles \<and>
           (\<forall>m\<in>set mobiles. m_available_from best \<le> m_available_from m) \<and>
           (((\<forall>r\<in>set inFlight. o_mobile_id r \<noteq> Some (m_id best)) \<and>
             startLat = m_location_lat best \<and> startLng = m_location_lng best) \<or>
            (\<exists>r\<in>set inFlight. o_mobile_id r = Some (m_id best) \<and>
               (\<forall>r'\<in>set inFlight. o_mobile_id r' = Some (m_id best) \<longrightarrow>
                  dt_instant (o_requested_datetime r') \<le> dt_instant (o_requested_datetime r)) \<and>
               startLat = o_location_lat r \<and> startLng = o_location_lng r))"
proof -
  let ?g = "withFutureData rd customerLat customerLng inFlight"
  let ?key = "\<lambda>(m, d, e). e :: int"
  have none: "filter (trulyAvailable now) mobiles = []"
    using assms(2) by (simp add: filter_empty_conv)
  from assms(1) have "map ?g mobiles \<noteq> []" by simp
  from sort_key_nonempty [OF this, of ?key] obtain y ys where
    sorted: "sort_key ?key (map ?g mobiles) = y # ys" by blast
  from sort_key_head [OF sorted] have y_in: "y \<in> set (map ?g mobiles)" and
    y_min: "\<forall>x\<in>set (map ?g mobiles). ?key y \<le> ?key x" by blast+
  from y_in obtain best where best: "best \<in> set mobiles" "y = ?g best" by auto
  define last where "last = lastOrderForMobile inFlight best"
  define startLat where
    "startLat = (case last of Some ord \<Rightarrow> o_location_lat ord | None \<Rightarrow> m_location_lat best)"
  define startLng where
    "startLng = (case last of Some ord \<Rightarrow> o_location_lng ord | None \<Rightarrow> m_location_lng best)"
  have y_eq: "y = (best, toFixed2 (calculateDistance rd startLat startLng customerLat customerLng),
                   m_available_from best)"
    using best(2) by (simp add: withFutureData_def Let_def startLat_def startLng_def last_def)
  have res: "findBestMobile rd now mobiles customerLat customerLng inFlight =
      Some (best, toFixed2 (calculateDistance rd startLat startLng customerLat customerLng))"
    using none sorted y_eq by (simp add: findBestMobile_def)
  have earliest: "\<forall>m\<in>set mobiles. m_available_from best \<le> m_available_from m"
  proof
    fix m assume "m \<in> set mobiles"
    then have "?g m \<in> set (map ?g mobiles)" by simp
    with y_min have "?key y \<le> ?key (?g m)" by blast
    then show "m_available_from best \<le> m_available_from m"
      using y_eq by (simp add: withFutureData_def Let_def)
  qed
  have pos: "((\<forall>r\<in>set inFlight. o_mobile_id r \<noteq> Some (m_id best)) \<and>
             startLat = m_location_lat best \<and> startLng = m_location_lng best) \<or>
            (\<exists>r\<in>set inFlight. o_mobile_id r = Some (m_id best) \<and>
               (\<forall>r'\<in>set inFlight. o_mobile_id r' = Some (m_id best) \<longrightarrow>
                  dt_instant (o_requested_datetime r') \<le> dt_instant (o_requested_datetime r)) \<and>
               startLat = o_location_lat r \<and> startLng = o_location_lng r)"
  proof (cases last)
    case None
    then have "\<forall>r\<in>set inFlight. o_mobile_id r \<noteq> Some (m_id best)"
      using lastOrderForMobile_None [of inFlight best] by (simp add: last_def)
    with None show ?thesis by (simp add: startLat_def startLng_def)
  next
    case (Some r)
    then have "lastOrderForMobile inFlight best = Some r" by (simp add: last_def)
    from lastOrderForMobile_Some [OF this] Some show ?thesis
      by (auto simp: startLat_def startLng_def)
  qed
  from res best(1) earliest pos show ?thesis by blast
qed

theorem findBestMobile_all_busy_witness:
  "[unitGamma, unitBeta] \<noteq> [] \<and>
   \<not> trulyAvailable 0 unitGamma \<and> \<not> trulyAvailable 0 unitBeta \<and>
   findBestMobile oneUlp 0 [unitGamma, unitBeta] 32.08 34.78 [orderOnBeta] =
     Some (unitBeta, toFixed2 (calculateDistance oneUlp 32.1 34.8 32.08 34.78))"
proof -
  have ne: "[unitGamma, unitBeta] \<noteq> []" by simp
  have g: "\<not> trulyAvailable 0 unitGamma" and b0: "\<not> trulyAvailable 0 unitBeta"
    by (simp_all add: trulyAvailable_def unitGamma_def unitBeta_def)
  then have busy: "\<forall>m\<in>set [unitGamma, unitBeta]. \<not> trulyAvailable 0 m"
    by simp
  from findBestMobile_all_busy
    [OF ne busy, where rd = oneUlp and customerLat = "32.08" and customerLng = "34.78"
       and inFlight = "[orderOnBeta]"]
  obtain best startLat startLng where
    r: "findBestMobile oneUlp 0 [unitGamma, unitBeta] 32.08 34.78 [orderOnBeta] =
          Some (best, toFixed2 (calculateDistance oneUlp startLat startLng 32.08 34.78))" and
    mem: "best \<in> set [unitGamma, unitBeta]" and
    early: "\<forall>m\<in>set [unitGamma, unitBeta]. m_available_from best \<le> m_available_from m" and
    pos: "((\<forall>r\<in>set [orderOnBeta]. o_mobile_id r \<noteq> Some (m_id best)) \<and>
            startLat = m_location_lat best \<and> startLng = m_location_lng best) \<or>
          (\<exists>r\<in>set [orderOnBeta]. o_mobile_id r = Some (m_id best) \<and>
             (\<forall>r'\<in>set [orderOnBeta]. o_mobile_id r' = Some (m_id best) \<longrightarrow>
                dt_instant (o_requested_datetime r') \<le> dt_instant (o_requested_datetime r)) \<and>
             startLat = o_location_lat r \<and> startLng = o_location_lng r)"
    by blast
  from early have "m_available_from best \<le> m_available_from unitBeta" by simp
  then have "best \<noteq> unitGamma" by (auto simp: unitGamma_def unitBeta_def)
  with mem have b: "best = unitBeta" by simp
  have "o_mobile_id orderOnBeta = Some (m_id unitBeta)"
    by (simp add: orderOnBeta_def unitBeta_def)
  with pos b have "startLat = o_location_lat orderOnBeta \<and> startLng = o_location_lng orderOnBeta"
    by simp
  then have "startLat = 32.1 \<and> startLng = 34.8" by (simp add: orderOnBeta_def)
  with r b ne g b0 show ?thesis by simp
qed

subsection \<open>Price and duration\<close>

text \<open>
  Claim C5. The price is 50 plus 20 per level plus 2 per kilometre, rounded to the
  nearest integer (at most one half away from the exact sum); the service type does not
  enter it; level 3 at 10 km costs 130 for every service type. This holds for every level
  and every distance, so in particular for levels 1 to 5 and distances from 0 up.
\<close>

theorem calculatePrice_formula:
  "calculatePrice level distance category = round (50 + 20 * real_of_int level + 2 * distance) \<and>
   \<bar>real_of_int (calculatePrice level distance category) -
      (50 + 20 * real_of_int level + 2 * distance)\<bar> \<le> 1 / 2 \<and>
   calculatePrice level distance category = calculatePrice level distance category' \<and>
   calculatePrice 3 10 category = 130"
proof -
  have a: "calculatePrice level distance category = round (50 + 20 * real_of_int level + 2 * distance)"
    by (simp add: calculatePrice_def)
  have b: "\<bar>real_of_int (round (50 + 20 * real_of_int level + 2 * distance)) -
      (50 + 20 * real_of_int level + 2 * distance)\<bar> \<le> 1 / 2"
    by (rule of_int_round_abs_le)
  have c: "calculatePrice level distance category = calculatePrice level distance category'"
    by (simp add: calculatePrice_def)
  have d: "calculatePrice 3 10 category = 130"
    by (simp add: calculatePrice_def)
  from a b c d show ?thesis by simp
qed

lemma calculateDuration_eq:
  "calculateDuration level category =
     30 + 10 * level + (if includes_str category ''polish'' then 15 else 0) +
       (if includes_str category ''wax'' then 10 else 0)"
  by (simp add: calculateDuration_def)

text \<open>
  For a service type that passes the request validation, containing \<^verbatim>\<open>polish\<close> as a
  substring is the same as having \<^verbatim>\<open>polish\<close> among the services joined by \<^verbatim>\<open>+\<close>.
\<close>

lemma split_on_nonempty: "split_on sep v \<noteq> []"
  by (induction v) (auto split: list.splits)

lemma starts_with_first_token:
  "sep \<notin> set sub \<Longrightarrow> starts_with v sub = starts_with (hd (split_on sep v)) sub"
proof (induction v arbitrary: sub)
  case Nil
  show ?case by simp
next
  case (Cons x xs)
  show ?case
  proof (cases sub)
    case Nil
    then show ?thesis by simp
  next
    case (Cons e es)
    with Cons.prems have e: "e \<noteq> sep" and es: "sep \<notin> set es" by auto
    show ?thesis
    proof (cases "x = sep")
      case True
      with e Cons show ?thesis by auto
    next
      case False
      obtain w ws where w: "split_on sep xs = w # ws"
        using split_on_nonempty [of sep xs] by (cases "split_on sep xs") auto
      from Cons.IH [OF es] w have "starts_with xs es = starts_with w es" by simp
      with False w Cons show ?thesis by simp
    qed
  qed
qed

lemma includes_str_tokens:
  assumes "sep \<notin> set sub" and "sub \<noteq> []"
  shows "includes_str v sub = (\<exists>w\<in>set (split_on sep v). includes_str w sub)"
proof (induction v)
  case Nil
  show ?case by simp
next
  case (Cons x xs)
  obtain d ds where sub: "sub = d # ds" using assms(2) by (cases sub) auto
  with assms(1) have d: "d \<noteq> sep" by auto
  show ?case
  proof (cases "x = sep")
    case True
    have "\<not> starts_with (x # xs) sub" using True d sub by auto
    moreover have "\<not> includes_str [] sub" using sub by simp
    ultimately show ?thesis using True Cons.IH by simp
  next
    case False
    obtain w ws where w: "split_on sep xs = w # ws"
      using split_on_nonempty [of sep xs] by (cases "split_on sep xs") auto
    have first: "starts_with (x # xs) sub = starts_with (x # w) sub"
      using starts_with_first_token [OF assms(1), of "x # xs"] False w by simp
    show ?thesis
      using False w Cons.IH first by auto
  qed
qed

lemma valid_service_polish:
  "w \<in> set validServices \<Longrightarrow> includes_str w ''polish'' = (w = ''polish'')"
  by (auto simp: validServices_def)

lemma valid_service_wax:
  "w \<in> set validServices \<Longrightarrow> includes_str w ''wax'' = (w = ''wax'')"
  by (auto simp: validServices_def)

lemma validated_contains:
  assumes "validServiceType v"
  shows "includes_str v ''polish'' = (''polish'' \<in> set (split_on CHR ''+'' v))"
    and "includes_str v ''wax'' = (''wax'' \<in> set (split_on CHR ''+'' v))"
proof -
  from assms have all: "\<forall>w\<in>set (split_on CHR ''+'' v). w \<in> set validServices"
    by (simp add: validServiceType_def list_all_iff)
  have "includes_str v ''polish'' = (\<exists>w\<in>set (split_on CHR ''+'' v). includes_str w ''polish'')"
    by (rule includes_str_tokens) simp_all
  also have "\<dots> = (\<exists>w\<in>set (split_on CHR ''+'' v). w = ''polish'')"
    using all valid_service_polish by blast
  finally show "includes_str v ''polish'' = (''polish'' \<in> set (split_on CHR ''+'' v))" by blast
  have "includes_str v ''wax'' = (\<exists>w\<in>set (split_on CHR ''+'' v). includes_str w ''wax'')"
    by (rule includes_str_tokens) simp_all
  also have "\<dots> = (\<exists>w\<in>set (split_on CHR ''+'' v). w = ''wax'')"
    using all valid_service_wax by blast
  finally show "includes_str v ''wax'' = (''wax'' \<in> set (split_on CHR ''+'' v))" by blast
qed

text \<open>
  Claim C6. The duration is 30 plus 10 per level, plus 15 when the service type contains
  \<^verbatim>\<open>polish\<close> and plus 10 when it contains \<^verbatim>\<open>wax\<close> (as a substring, which for a validated
  service type means: as one of the services of the set); \<^verbatim>\<open>exterior\<close>, \<^verbatim>\<open>interior\<close> and
  their combination add nothing; and with the service type fixed a higher level gives a
  strictly longer duration.
\<close>

theorem calculateDuration_formula:
  "calculateDuration level category =
     30 + 10 * level + (if includes_str category ''polish'' then 15 else 0) +
       (if includes_str category ''wax'' then 10 else 0) \<and>
   (validServiceType category \<longrightarrow>
      calculateDuration level category =
        30 + 10 * level + (if ''polish'' \<in> set (split_on CHR ''+'' category) then 15 else 0) +
          (if ''wax'' \<in> set (split_on CHR ''+'' category) then 10 else 0)) \<and>
   calculateDuration level ''exterior'' = 30 + 10 * level \<and>
   calculateDuration level ''interior'' = 30 + 10 * level \<and>
   calculateDuration level ''exterior+interior'' = 30 + 10 * level \<and>
   calculateDuration 3 ''exterior'' = 60 \<and>
   (level < level' \<longrightarrow> calculateDuration level category < calculateDuration level' category)"
proof -
  have a: "validServiceType category \<longrightarrow>
      calculateDuration level category =
        30 + 10 * level + (if ''polish'' \<in> set (split_on CHR ''+'' category) then 15 else 0) +
          (if ''wax'' \<in> set (split_on CHR ''+'' category) then 10 else 0)"
  proof (intro impI)
    assume v: "validServiceType category"
    show "calculateDuration level category =
        30 + 10 * level + (if ''polish'' \<in> set (split_on CHR ''+'' category) then 15 else 0) +
          (if ''wax'' \<in> set (split_on CHR ''+'' category) then 10 else 0)"
      unfolding calculateDuration_eq validated_contains [OF v] by (rule refl)
  qed
  have b: "calculateDuration level ''exterior'' = 30 + 10 * level \<and>
   calculateDuration level ''interior'' = 30 + 10 * level \<and>
   calculateDuration level ''exterior+interior'' = 30 + 10 * level \<and>
   calculateDuration 3 ''exterior'' = 60 \<and>
   (level < level' \<longrightarrow> calculateDuration level category < calculateDuration level' category)"
    by (simp add: calculateDuration_eq)
  from calculateDuration_eq [of level category] a b show ?thesis by (intro conjI) (elim conjE, assumption)+
qed

theorem calculateDuration_formula_witness:
  "(1::int) < 2 \<and> calculateDuration 1 ''polish+wax'' < calculateDuration 2 ''polish+wax'' \<and>
   validServiceType ''polish+wax'' \<and>
   set (split_on CHR ''+'' ''polish+wax'') = {''polish'', ''wax''} \<and>
   calculateDuration 1 ''polish+wax'' = 65"
proof -
  have v: "validServiceType ''polish+wax''"
    by (simp add: validServiceType_def validServices_def)
  have t: "set (split_on CHR ''+'' ''polish+wax'') = {''polish'', ''wax''}" by simp
  note inst = calculateDuration_formula [of 1 "''polish+wax''" 2]
  from inst have mono: "(1::int) < 2 \<longrightarrow>
      calculateDuration 1 ''polish+wax'' < calculateDuration 2 ''polish+wax''"
    by (elim conjE)
  from inst v have "calculateDuration 1 ''polish+wax'' =
        30 + 10 * 1 + (if ''polish'' \<in> set (split_on CHR ''+'' ''polish+wax'') then 15 else 0) +
          (if ''wax'' \<in> set (split_on CHR ''+'' ''polish+wax'') then 10 else 0)"
    by (elim conjE) (erule mp, assumption)
  then have val: "calculateDuration 1 ''polish+wax'' = 65" by (simp only: t) simp
  from mono v t val show ?thesis by simp
qed

text \<open>
  Claim C8 says that pricing fails with \<^verbatim>\<open>InvalidInput\<close> for a level outside 1 to 5 or a
  negative distance, and produces no value. The two functions check nothing: at level 0 and
  distance -1 the price is 48, at level 6 the price is 170 and the duration 100.
\<close>

theorem pricing_no_validation_counterexample:
  "calculatePrice 0 (- 1) ''wax'' = 48 \<and> calculatePrice 6 0 ''wax'' = 170 \<and>
   calculateDuration 0 ''wax'' = 40 \<and> calculateDuration 6 ''wax'' = 100"
  by (simp add: calculatePrice_def calculateDuration_eq)

text \<open>
  Claim C8, amended. \<^verbatim>\<open>calculatePrice\<close> and \<^verbatim>\<open>calculateDuration\<close> return the value of their
  formula also for a level outside 1 to 5; such a level is rejected earlier, by the request
  validation of the two routes: \<^verbatim>\<open>POST /estimate\<close> and \<^verbatim>\<open>POST /\<close> answer with the validation
  error, choose no unit, write nothing and arm no timer. The distance is never supplied by
  the caller.
\<close>

theorem level_checked_by_validateOrder:
  assumes "dirt_level orderData < 1 \<or> 5 < dirt_level orderData"
  shows "calculatePrice (dirt_level orderData) distance category =
           round (50 + 20 * real_of_int (dirt_level orderData) + 2 * distance) \<and>
         calculateDuration (dirt_level orderData) category =
           30 + 10 * dirt_level orderData + (if includes_str category ''polish'' then 15 else 0) +
             (if includes_str category ''wax'' then 10 else 0) \<and>
         estimate e orderData s = Inl ValidationFailed \<and>
         createJob e orderData s = (Inl ValidationFailed, s, None)"
proof -
  from assms have "\<not> validateOrder orderData"
    by (auto simp: validateOrder_def)
  then show ?thesis
    by (simp add: estimate_def createJob_def calculatePrice_def calculateDuration_eq)
qed

theorem level_checked_by_validateOrder_witness:
  "(dirt_level (requestOne\<lparr>dirt_level := 6\<rparr>) < 1 \<or> 5 < dirt_level (requestOne\<lparr>dirt_level := 6\<rparr>)) \<and>
   calculatePrice 6 0 ''wax'' = 170 \<and>
   calculateDuration 6 ''wax'' = 100 \<and>
   estimate (calm 0) (requestOne\<lparr>dirt_level := 6\<rparr>) dbMorning = Inl ValidationFailed \<and>
   createJob (calm 0) (requestOne\<lparr>dirt_level := 6\<rparr>) dbMorning = (Inl ValidationFailed, dbMorning, None)"
  using level_checked_by_validateOrder
    [where orderData = "requestOne\<lparr>dirt_level := 6\<rparr>" and distance = 0
       and category = "''wax''" and e = "calm 0" and s = dbMorning]
  by simp

subsection \<open>Statements on the store\<close>

lemma db_mobiles_updateOrderStatus [simp]:
  "db_mobiles (updateOrderStatus now status orderId s) = db_mobiles s"
  by (simp add: updateOrderStatus_def)

lemma db_logs_updateOrderStatus [simp]:
  "db_activity_logs (updateOrderStatus now status orderId s) = db_activity_logs s"
  by (simp add: updateOrderStatus_def)

lemma db_orders_updateOrderStatus:
  "db_orders (updateOrderStatus now status orderId s) =
     map (\<lambda>r. if o_id r = orderId then r\<lparr>o_status := status, o_updated_at := sqlNow now\<rparr> else r) (db_orders s)"
  by (simp add: updateOrderStatus_def)

lemma db_mobiles_insertLog [simp]:
  "db_mobiles (insertLog now orderId status mobileId notes s) = db_mobiles s"
  by (simp add: insertLog_def)

lemma db_orders_insertLog [simp]:
  "db_orders (insertLog now orderId status mobileId notes s) = db_orders s"
  by (simp add: insertLog_def)

lemma db_logs_insertLog:
  "db_activity_logs (insertLog now orderId status mobileId notes s) =
     db_activity_logs s @
       [\<lparr>l_order_id = orderId, l_status = status, l_mobile_id = mobileId,
         l_notes = notes, l_timestamp = sqlNow now\<rparr>]"
  by (simp add: insertLog_def)

lemma db_orders_updateMobile [simp]: "db_orders (updateMobile mobileId f s) = db_orders s"
  by (simp add: updateMobile_def)

lemma db_logs_updateMobile [simp]:
  "db_activity_logs (updateMobile mobileId f s) = db_activity_logs s"
  by (simp add: updateMobile_def)

lemma db_mobiles_updateMobile:
  "db_mobiles (updateMobile mobileId f s) =
     map (\<lambda>m. if m_id m = mobileId then f m else m) (db_mobiles s)"
  by (simp add: updateMobile_def)

lemma db_mobiles_insertOrder [simp]:
  "db_mobiles (insertOrder now d price summary best s) = db_mobiles s"
  by (simp add: insertOrder_def)

text \<open>The queue of a unit once the order itself has left the pending state.\<close>

lemma pending_after_update:
  assumes "status \<noteq> ''pending''"
  shows "filter (\<lambda>r. o_mobile_id r = Some mobileId \<and> o_status r = ''pending'')
           (map (\<lambda>r. if o_id r = orderId then r\<lparr>o_status := status, o_updated_at := sqlNow now\<rparr> else r) rows) =
         filter (\<lambda>r. o_mobile_id r = Some mobileId \<and> o_status r = ''pending'' \<and> o_id r \<noteq> orderId) rows"
  using assms by (induction rows) auto

lemma nextPendingOrder_after_update:
  assumes "status \<noteq> ''pending''"
  shows "nextPendingOrder mobileId
           (insertLog t2 i st mid n (updateOrderStatus now status orderId s)) =
         (case sort_key (\<lambda>r. dt_text (o_requested_datetime r))
                 (filter (\<lambda>r. o_mobile_id r = Some mobileId \<and> o_status r = ''pending'' \<and> o_id r \<noteq> orderId)
                    (db_orders s)) of
            [] \<Rightarrow> None | r # _ \<Rightarrow> Some r)"
  by (simp add: nextPendingOrder_def db_orders_updateOrderStatus pending_after_update [OF assms])

lemma nextPendingOrder_None:
  assumes "status \<noteq> ''pending''"
    and "nextPendingOrder mobileId (insertLog t2 i st mid n (updateOrderStatus now status orderId s)) = None"
  shows "\<forall>r\<in>set (db_orders s). \<not> (o_mobile_id r = Some mobileId \<and> o_status r = ''pending'' \<and> o_id r \<noteq> orderId)"
proof -
  let ?q = "filter (\<lambda>r. o_mobile_id r = Some mobileId \<and> o_status r = ''pending'' \<and> o_id r \<noteq> orderId)
              (db_orders s)"
  from assms(2) have "(case sort_key (\<lambda>r. dt_text (o_requested_datetime r)) ?q of [] \<Rightarrow> None | r # _ \<Rightarrow> Some r) = None"
    by (simp only: nextPendingOrder_after_update [OF assms(1)])
  then have "sort_key (\<lambda>r. dt_text (o_requested_datetime r)) ?q = []"
    by (cases "sort_key (\<lambda>r. dt_text (o_requested_datetime r)) ?q") simp_all
  then have "?q = []" by (simp only: sort_key_Nil_iff)
  then show ?thesis by (simp only: filter_empty_conv)
qed

lemma nextPendingOrder_Some:
  assumes "status \<noteq> ''pending''"
    and "nextPendingOrder mobileId (insertLog t2 i st mid n (updateOrderStatus now status orderId s)) = Some nxt"
  shows "nxt \<in> set (db_orders s) \<and> o_mobile_id nxt = Some mobileId \<and> o_status nxt = ''pending'' \<and>
         o_id nxt \<noteq> orderId \<and>
         (\<forall>r\<in>set (db_orders s). o_mobile_id r = Some mobileId \<and> o_status r = ''pending'' \<and> o_id r \<noteq> orderId \<longrightarrow>
            dt_text (o_requested_datetime nxt) \<le> dt_text (o_requested_datetime r))"
proof -
  let ?P = "\<lambda>r. o_mobile_id r = Some mobileId \<and> o_status r = ''pending'' \<and> o_id r \<noteq> orderId"
  let ?q = "filter ?P (db_orders s)"
  from assms(2) have c: "(case sort_key (\<lambda>r. dt_text (o_requested_datetime r)) ?q of [] \<Rightarrow> None | r # _ \<Rightarrow> Some r) = Some nxt"
    by (simp only: nextPendingOrder_after_update [OF assms(1)])
  then obtain ys where "sort_key (\<lambda>r. dt_text (o_requested_datetime r)) ?q = nxt # ys"
    by (cases "sort_key (\<lambda>r. dt_text (o_requested_datetime r)) ?q") simp_all
  from sort_key_head [OF this] have a: "nxt \<in> set ?q"
    and b: "\<forall>x\<in>set ?q. dt_text (o_requested_datetime nxt) \<le> dt_text (o_requested_datetime x)" by blast+
  from a have a': "nxt \<in> set (db_orders s) \<and> ?P nxt" by simp
  have b': "\<forall>r\<in>set (db_orders s). ?P r \<longrightarrow> dt_text (o_requested_datetime nxt) \<le> dt_text (o_requested_datetime r)"
  proof (intro ballI impI)
    fix r assume "r \<in> set (db_orders s)" "?P r"
    then have "r \<in> set ?q" by simp
    with b show "dt_text (o_requested_datetime nxt) \<le> dt_text (o_requested_datetime r)" by blast
  qed
  from a' b' show ?thesis by blast
qed

text \<open>The block that advances the queue, run to its end, spelled out by its branch.\<close>

lemma advanceQueue_ok:
  assumes run: "advanceQueue e orderDetails s2 = Inr s'"
    and bound: "boundMobile orderDetails = Some mobileId"
  shows "case nextPendingOrder mobileId s2 of
              None \<Rightarrow> s' = updateMobile mobileId
                        (\<lambda>m. m\<lparr>m_is_available := 1, m_current_order_id := None,
                                m_available_from := sqlNow (clock e 4) - zone e,
                                m_location_lat := o_location_lat orderDetails,
                                m_location_lng := o_location_lng orderDetails\<rparr>) s2
            | Some nextOrder \<Rightarrow>
                s' = insertLog (clock e 6) (o_id nextOrder) ''assigned'' (Some mobileId)
                       ''Auto-assigned from queue.''
                       (updateOrderStatus (clock e 5) ''assigned'' (o_id nextOrder)
                          (updateMobile mobileId
                             (\<lambda>m. m\<lparr>m_current_order_id := Some (o_id nextOrder),
                                     m_location_lat := o_location_lat orderDetails,
                                     m_location_lng := o_location_lng orderDetails\<rparr>) s2))"
proof -
  have f3: "\<not> fails e 3"
    using run bound by (auto simp: advanceQueue_def split: if_splits)
  show ?thesis
  proof (cases "nextPendingOrder mobileId s2")
    case None
    with run bound f3 have "releaseMobile e orderDetails mobileId s2 = Inr s'"
      by (simp add: advanceQueue_def)
    then have "s' = updateMobile mobileId
                        (\<lambda>m. m\<lparr>m_is_available := 1, m_current_order_id := None,
                                m_available_from := sqlNow (clock e 4) - zone e,
                                m_location_lat := o_location_lat orderDetails,
                                m_location_lng := o_location_lng orderDetails\<rparr>) s2"
      by (simp add: releaseMobile_def exec_def split: if_splits)
    with None show ?thesis by simp
  next
    case (Some nextOrder)
    with run bound f3 have p: "promoteNext e orderDetails mobileId nextOrder s2 = Inr s'"
      by (simp add: advanceQueue_def)
    have g4: "\<not> fails e 4"
      using p by (auto simp: promoteNext_def exec_def andThen_def)
    have g5: "\<not> fails e 5"
      using p g4 by (auto simp: promoteNext_def exec_def andThen_def)
    have g6: "\<not> fails e 6"
      using p g4 g5 by (auto simp: promoteNext_def exec_def andThen_def)
    have "s' = insertLog (clock e 6) (o_id nextOrder) ''assigned'' (Some mobileId)
                       ''Auto-assigned from queue.''
                       (updateOrderStatus (clock e 5) ''assigned'' (o_id nextOrder)
                          (updateMobile mobileId
                             (\<lambda>m. m\<lparr>m_current_order_id := Some (o_id nextOrder),
                                     m_location_lat := o_location_lat orderDetails,
                                     m_location_lng := o_location_lng orderDetails\<rparr>) s2))"
      using p g4 g5 g6 by (simp add: promoteNext_def exec_def andThen_def)
    with Some show ?thesis by simp
  qed
qed

lemma statusTransaction_terminal:
  assumes run: "statusTransaction e orderId status notes orderDetails s = Inr s'"
    and terminal: "status = ''completed'' \<or> status = ''cancelled''"
  shows "advanceQueue e orderDetails
           (insertLog (clock e 2) orderId status (o_mobile_id orderDetails)
              (noteOr notes (adminNote status))
              (updateOrderStatus (clock e 1) status orderId s)) = Inr s'"
proof -
  have f1: "\<not> fails e 1"
    using run by (auto simp: statusTransaction_def exec_def andThen_def)
  have f2: "\<not> fails e 2"
    using run f1 by (auto simp: statusTransaction_def exec_def andThen_def)
  from terminal have t: "(status = ''completed'' \<or> status = ''cancelled'') = True" by simp
  show ?thesis
    using run f1 f2 unfolding statusTransaction_def exec_def andThen_def t by simp
qed

lemma statusTransaction_plain:
  assumes run: "statusTransaction e orderId status notes od s = Inr s'"
    and plain: "\<not> (status = ''completed'' \<or> status = ''cancelled'') \<or> boundMobile od = None"
  shows "s' = insertLog (clock e 2) orderId status (o_mobile_id od)
                (noteOr notes (adminNote status))
                (updateOrderStatus (clock e 1) status orderId s)"
proof -
  have f1: "\<not> fails e 1"
    using run by (auto simp: statusTransaction_def exec_def andThen_def)
  have f2: "\<not> fails e 2"
    using run f1 by (auto simp: statusTransaction_def exec_def andThen_def)
  show ?thesis
  proof (cases "status = ''completed'' \<or> status = ''cancelled''")
    case False
    then have t: "(status = ''completed'' \<or> status = ''cancelled'') = False" by simp
    show ?thesis
      using run f1 f2 unfolding statusTransaction_def exec_def andThen_def t by simp
  next
    case True
    with plain have ub: "boundMobile od = None" by blast
    from statusTransaction_terminal [OF run True] ub show ?thesis
      by (simp add: advanceQueue_def)
  qed
qed

subsection \<open>The day of requests, step by step\<close>

lemma calculateDistance_same:
  "calculateDistance (\<lambda>lat1 lng1 lat2 lng2. 0) lat lng lat lng = Number 0"
  by (simp add: calculateDistance_def atan2_def)

lemma toFixed2_0: "toFixed2 (Number 0) = Number 0"
  by (simp add: toFixed2_def roundTo2_def)

lemma validate_requestOne: "validateOrder requestOne"
  by (simp add: validateOrder_def requestOne_def validServiceType_def validServices_def)

lemma validate_requestTwo: "validateOrder requestTwo"
  by (simp add: validateOrder_def requestTwo_def validServiceType_def validServices_def)

lemma calm_simps [simp]:
  "fails (calm t) k = False" "clock (calm t) k = t"
  "rounding (calm t) = (\<lambda>lat1 lng1 lat2 lng2. 0)" "zone (calm t) = 0"
  by (simp_all add: calm_def)

lemma failingAt_simps [simp]:
  "fails (failingAt j t) k = (k = j)" "clock (failingAt j t) k = t"
  "rounding (failingAt j t) = (\<lambda>lat1 lng1 lat2 lng2. 0)" "zone (failingAt j t) = 0"
  by (simp_all add: failingAt_def)

lemma find_morning:
  "findBestMobile (\<lambda>lat1 lng1 lat2 lng2. 0) 0 [unitAlpha] (m_location_lat unitAlpha)
     (m_location_lng unitAlpha) [] = Some (unitAlpha, Number 0)"
proof -
  have "trulyAvailable 0 unitAlpha" by (simp add: trulyAvailable_def unitAlpha_def)
  moreover have "mobileDistance (\<lambda>lat1 lng1 lat2 lng2. 0) (m_location_lat unitAlpha)
      (m_location_lng unitAlpha) unitAlpha = Number 0"
    by (simp add: mobileDistance_def calculateDistance_same)
  ultimately show ?thesis
    by (simp add: findBestMobile_def closestStep_None toFixed2_0)
qed

lemma day_first_order:
  "createJob (calm 0) requestOne dbMorning =
     (Inr (1, generateOrderSummary requestOne (unitAlpha, Number 0)), dbOneOrder,
      Some (1, 1, True))"
proof -
  let ?sm = "generateOrderSummary requestOne (unitAlpha, Number 0)"
  have loc: "location_lat requestOne = m_location_lat unitAlpha"
    "location_lng requestOne = m_location_lng unitAlpha"
    by (simp_all add: requestOne_def unitAlpha_def)
  have act: "activeOrders dbMorning = []" by (simp add: activeOrders_def dbMorning_def)
  have mob: "db_mobiles dbMorning = [unitAlpha]" by (simp add: dbMorning_def)
  have nid: "nextOrderId dbMorning = 1" by (simp add: nextOrderId_def dbMorning_def)
  have mid: "m_id unitAlpha = 1" by (simp add: unitAlpha_def)
  have dur: "s_duration ?sm = 60"
    by (simp add: generateOrderSummary_def requestOne_def calculateDuration_def)
  have price: "s_price ?sm = Some 110"
    by (simp add: generateOrderSummary_def requestOne_def calculatePrice_def)
  have avail: "trulyAvailable 0 unitAlpha" by (simp add: trulyAvailable_def unitAlpha_def)
  have fin: "insertLog 0 1 ''pending'' (Some 1) ''Order created and mobile assigned''
      (updateMobile 1 (\<lambda>m. m\<lparr>m_is_available := 0, m_current_order_id := Some 1,
                               m_available_from := 3600000\<rparr>)
         (insertOrder 0 requestOne 110 ?sm (unitAlpha, Number 0) dbMorning)) = dbOneOrder"
    by (simp add: insertLog_def updateMobile_def insertOrder_def nextOrderId_def sqlNow_def
          generateOrderSummary_def calculateDuration_def
          dbMorning_def dbOneOrder_def unitAlpha_def requestOne_def orderOne_def logCreated_def)
  show ?thesis
    by (simp add: createJob_def validate_requestOne loc act mob find_morning Let_def nid
          mid dur price avail fin)
qed

lemma day_first_order_pdf:
  "createJob (failingAt 7 0) requestOne dbMorning = (Inl PdfError, dbOneOrder, Some (1, 1, False))"
proof -
  let ?sm = "generateOrderSummary requestOne (unitAlpha, Number 0)"
  have loc: "location_lat requestOne = m_location_lat unitAlpha"
    "location_lng requestOne = m_location_lng unitAlpha"
    by (simp_all add: requestOne_def unitAlpha_def)
  have act: "activeOrders dbMorning = []" by (simp add: activeOrders_def dbMorning_def)
  have mob: "db_mobiles dbMorning = [unitAlpha]" by (simp add: dbMorning_def)
  have nid: "nextOrderId dbMorning = 1" by (simp add: nextOrderId_def dbMorning_def)
  have mid: "m_id unitAlpha = 1" by (simp add: unitAlpha_def)
  have dur: "s_duration ?sm = 60"
    by (simp add: generateOrderSummary_def requestOne_def calculateDuration_def)
  have price: "s_price ?sm = Some 110"
    by (simp add: generateOrderSummary_def requestOne_def calculatePrice_def)
  have avail: "trulyAvailable 0 unitAlpha" by (simp add: trulyAvailable_def unitAlpha_def)
  have fin: "insertLog 0 1 ''pending'' (Some 1) ''Order created and mobile assigned''
      (updateMobile 1 (\<lambda>m. m\<lparr>m_is_available := 0, m_current_order_id := Some 1,
                               m_available_from := 3600000\<rparr>)
         (insertOrder 0 requestOne 110 ?sm (unitAlpha, Number 0) dbMorning)) = dbOneOrder"
    by (simp add: insertLog_def updateMobile_def insertOrder_def nextOrderId_def sqlNow_def
          generateOrderSummary_def calculateDuration_def
          dbMorning_def dbOneOrder_def unitAlpha_def requestOne_def orderOne_def logCreated_def)
  show ?thesis
    by (simp add: createJob_def validate_requestOne loc act mob find_morning Let_def nid
          mid dur price avail fin)
qed

lemma find_one_order:
  "findBestMobile (\<lambda>lat1 lng1 lat2 lng2. 0) 60000 (db_mobiles dbOneOrder)
     (m_location_lat unitAlpha) (m_location_lng unitAlpha) (activeOrders dbOneOrder) =
     Some (hd (db_mobiles dbOneOrder), Number 0)"
proof -
  let ?u = "unitAlpha\<lparr>m_available_from := 3600000, m_is_available := 0, m_current_order_id := Some 1\<rparr>"
  have mob: "db_mobiles dbOneOrder = [?u]" by (simp add: dbOneOrder_def)
  have act: "activeOrders dbOneOrder = [orderOne]"
    by (simp add: activeOrders_def dbOneOrder_def orderOne_def)
  have busy: "\<not> trulyAvailable 60000 ?u" by (simp add: trulyAvailable_def)
  have last: "lastOrderForMobile [orderOne] ?u = Some orderOne"
    by (simp add: lastOrderForMobile_def orderOne_def unitAlpha_def)
  have pos: "o_location_lat orderOne = m_location_lat unitAlpha"
    "o_location_lng orderOne = m_location_lng unitAlpha"
    by (simp_all add: orderOne_def unitAlpha_def)
  have "withFutureData (\<lambda>lat1 lng1 lat2 lng2. 0) (m_location_lat unitAlpha)
      (m_location_lng unitAlpha) [orderOne] ?u = (?u, Number 0, 3600000)"
    by (simp add: withFutureData_def last pos calculateDistance_same toFixed2_0)
  then show ?thesis
    using busy by (simp add: findBestMobile_def mob act)
qed

lemma day_second_order:
  "createJob (calm 60000) requestTwo dbOneOrder =
     (Inr (2, generateOrderSummary requestTwo (hd (db_mobiles dbOneOrder), Number 0)),
      dbTwoOrders, None)"
proof -
  let ?u = "hd (db_mobiles dbOneOrder)"
  let ?sm = "generateOrderSummary requestTwo (?u, Number 0)"
  have loc: "location_lat requestTwo = m_location_lat unitAlpha"
    "location_lng requestTwo = m_location_lng unitAlpha"
    by (simp_all add: requestTwo_def unitAlpha_def)
  have nid: "nextOrderId dbOneOrder = 2" by (simp add: nextOrderId_def dbOneOrder_def orderOne_def)
  have mid: "m_id ?u = 1" by (simp add: dbOneOrder_def unitAlpha_def)
  have dur: "s_duration ?sm = 65"
    by (simp add: generateOrderSummary_def requestTwo_def calculateDuration_def)
  have price: "s_price ?sm = Some 70"
    by (simp add: generateOrderSummary_def requestTwo_def calculatePrice_def)
  have busy: "\<not> trulyAvailable 60000 ?u" by (simp add: trulyAvailable_def dbOneOrder_def)
  have fin: "insertLog 60000 2 ''pending'' (Some 1) ''Order created and mobile assigned''
      (updateMobile 1 (\<lambda>m. m\<lparr>m_is_available := 0, m_current_order_id := Some 2,
                               m_available_from := 3960000\<rparr>)
         (insertOrder 60000 requestTwo 70 ?sm (?u, Number 0) dbOneOrder)) = dbTwoOrders"
    by (simp add: insertLog_def updateMobile_def insertOrder_def nextOrderId_def sqlNow_def
          generateOrderSummary_def calculateDuration_def
          dbOneOrder_def dbTwoOrders_def unitAlpha_def requestTwo_def orderOne_def orderTwo_def
          logCreated_def)
  show ?thesis
    by (simp add: createJob_def validate_requestTwo loc find_one_order Let_def nid
          mid dur price busy fin)
qed

lemma day_timer_fires:
  "autoUpdate (calm 180000) True 1 1 dbTwoOrders = (Confirmed, dbConfirmed)"
  by (simp add: autoUpdate_def insertLog_def sqlNow_def dbTwoOrders_def dbConfirmed_def
        orderOne_def orderTwo_def logConfirmed_def)

lemma day_admin_completes:
  "adminUpdateStatus (calm 600000) 1 ''completed'' None dbConfirmed = (Inr (), dbPromoted)"
  by (simp add: adminUpdateStatus_def validStatuses_def statusTransaction_def exec_def andThen_def
        advanceQueue_def boundMobile_def nextPendingOrder_def promoteNext_def noteOr_def
        adminNote_def updateOrderStatus_def insertLog_def updateMobile_def sqlNow_def
        dbConfirmed_def dbPromoted_def orderOne_def orderTwo_def unitAlpha_def)

text \<open>The later part of the day: release, back to pending, promotion onto the released unit.\<close>

lemma day_admin_releases:
  "adminUpdateStatus (calm 700000) 2 ''completed'' None dbPromoted = (Inr (), dbReleased) \<and>
   dbReleased =
     dbPromoted\<lparr>db_orders := [orderOne\<lparr>o_status := ''completed'', o_updated_at := 600000\<rparr>,
                               orderTwo\<lparr>o_status := ''completed'', o_updated_at := 700000\<rparr>],
       db_mobiles := [unitAlpha\<lparr>m_available_from := 700000\<rparr>],
       db_activity_logs := db_activity_logs dbPromoted @
         [\<lparr>l_order_id = 2, l_status = ''completed'', l_mobile_id = Some 1,
           l_notes = ''Status updated to completed by admin'', l_timestamp = 700000\<rparr>]\<rparr>"
  by (simp add: dbReleased_def adminUpdateStatus_def validStatuses_def statusTransaction_def
        exec_def andThen_def advanceQueue_def boundMobile_def nextPendingOrder_def
        releaseMobile_def noteOr_def adminNote_def updateOrderStatus_def insertLog_def
        updateMobile_def sqlNow_def dbPromoted_def orderOne_def orderTwo_def unitAlpha_def)

lemma day_admin_requeues:
  "adminUpdateStatus (calm 800000) 1 ''pending'' None dbReleased = (Inr (), dbRequeued) \<and>
   dbRequeued =
     dbReleased\<lparr>db_orders := [orderOne\<lparr>o_status := ''pending'', o_updated_at := 800000\<rparr>,
                               orderTwo\<lparr>o_status := ''completed'', o_updated_at := 700000\<rparr>],
       db_activity_logs := db_activity_logs dbReleased @
         [\<lparr>l_order_id = 1, l_status = ''pending'', l_mobile_id = Some 1,
           l_notes = ''Status updated to pending by admin'', l_timestamp = 800000\<rparr>]\<rparr>"
  unfolding dbRequeued_def day_admin_releases [THEN conjunct2]
  by (simp add: adminUpdateStatus_def validStatuses_def statusTransaction_def
        exec_def andThen_def noteOr_def adminNote_def updateOrderStatus_def insertLog_def
        sqlNow_def dbPromoted_def orderOne_def orderTwo_def unitAlpha_def)

lemma day_admin_repromotes:
  "adminUpdateStatus (calm 900000) 2 ''cancelled'' None dbRequeued = (Inr (), dbRepromoted) \<and>
   dbRepromoted =
     dbRequeued\<lparr>db_orders := [orderOne\<lparr>o_status := ''assigned'', o_updated_at := 900000\<rparr>,
                               orderTwo\<lparr>o_status := ''cancelled'', o_updated_at := 900000\<rparr>],
       db_mobiles := [unitAlpha\<lparr>m_available_from := 700000, m_current_order_id := Some 1\<rparr>],
       db_activity_logs := db_activity_logs dbRequeued @
         [\<lparr>l_order_id = 2, l_status = ''cancelled'', l_mobile_id = Some 1,
           l_notes = ''Status updated to cancelled by admin'', l_timestamp = 900000\<rparr>,
          \<lparr>l_order_id = 1, l_status = ''assigned'', l_mobile_id = Some 1,
           l_notes = ''Auto-assigned from queue.'', l_timestamp = 900000\<rparr>]\<rparr>"
  unfolding dbRepromoted_def day_admin_requeues [THEN conjunct2]
    day_admin_releases [THEN conjunct2]
  by (simp add: adminUpdateStatus_def validStatuses_def statusTransaction_def
        exec_def andThen_def advanceQueue_def boundMobile_def nextPendingOrder_def
        promoteNext_def noteOr_def adminNote_def updateOrderStatus_def insertLog_def
        updateMobile_def sqlNow_def dbPromoted_def orderOne_def orderTwo_def unitAlpha_def)


subsection \<open>The admin route: validation, lookup, transition, queue\<close>

text \<open>
  The admin route rejects an unknown status and a missing order without touching the
  store, undoes every write of a failed transaction, and on success sets the status of the
  order and appends one log entry for it, followed at most by the entry of a promoted order.
\<close>

lemma adminUpdateStatus_ok:
  assumes "adminUpdateStatus e orderId status notes s = (Inr (), s')"
  shows "status \<in> set validStatuses \<and> \<not> fails e 0 \<and>
         (\<exists>od. find (\<lambda>r. o_id r = orderId) (db_orders s) = Some od \<and>
               statusTransaction e orderId status notes od s = Inr s')"
proof -
  have v: "status \<in> set validStatuses"
    using assms by (auto simp: adminUpdateStatus_def split: if_splits)
  have f0: "\<not> fails e 0"
    using assms v by (auto simp: adminUpdateStatus_def split: if_splits)
  obtain od where od: "find (\<lambda>r. o_id r = orderId) (db_orders s) = Some od"
    using assms v f0 by (cases "find (\<lambda>r. o_id r = orderId) (db_orders s)")
      (auto simp: adminUpdateStatus_def)
  have "statusTransaction e orderId status notes od s = Inr s'"
    using assms v f0 od by (auto simp: adminUpdateStatus_def split: sum.splits)
  with v f0 od show ?thesis by blast
qed

lemma adminUpdateStatus_rejects:
  "status \<notin> set validStatuses \<Longrightarrow>
     adminUpdateStatus e orderId status notes s = (Inl InvalidStatus, s)"
  by (simp add: adminUpdateStatus_def)

lemma adminUpdateStatus_not_found:
  assumes "status \<in> set validStatuses" and "\<not> fails e 0"
    and "\<forall>r\<in>set (db_orders s). o_id r \<noteq> orderId"
  shows "adminUpdateStatus e orderId status notes s = (Inl OrderNotFound, s)"
proof -
  from assms(3) have "find (\<lambda>r. o_id r = orderId) (db_orders s) = None"
    by (simp add: find_None_iff)
  with assms(1,2) show ?thesis by (simp add: adminUpdateStatus_def)
qed

lemma adminUpdateStatus_not_found_response:
  assumes "status \<in> set validStatuses" and "\<not> fails e 0"
    and "\<forall>r\<in>set (db_orders s). o_id r \<noteq> orderId"
  shows "adminResponse (fst (adminUpdateStatus e orderId status notes s)) =
           Some (500, ''Failed to update status'')"
  by (simp add: adminUpdateStatus_not_found [OF assms] adminResponse_def)

lemma adminUpdateStatus_atomic:
  "adminUpdateStatus e orderId status notes s = (Inl err, s') \<Longrightarrow> s' = s"
  by (auto simp: adminUpdateStatus_def split: if_splits option.splits sum.splits)

lemma terminal_not_pending:
  "status = ''completed'' \<or> status = ''cancelled'' \<Longrightarrow> status \<noteq> ''pending''"
  by auto

text \<open>
  After a terminal status on an order bound to a unit, the admin route promotes the
  pending order of that unit whose stored request date is the least as text, or releases
  the unit when there is none.
\<close>

lemma adminUpdateStatus_promotes:
  assumes ok: "adminUpdateStatus e orderId status notes s = (Inr (), s')"
    and terminal: "status = ''completed'' \<or> status = ''cancelled''"
    and found: "find (\<lambda>r. o_id r = orderId) (db_orders s) = Some od"
    and bound: "boundMobile od = Some mobileId"
    and queued: "\<exists>r\<in>set (db_orders s).
                   o_mobile_id r = Some mobileId \<and> o_status r = ''pending'' \<and> o_id r \<noteq> orderId"
  shows "\<exists>nxt\<in>set (db_orders s).
           o_mobile_id nxt = Some mobileId \<and> o_status nxt = ''pending'' \<and> o_id nxt \<noteq> orderId \<and>
           (\<forall>r\<in>set (db_orders s).
              o_mobile_id r = Some mobileId \<and> o_status r = ''pending'' \<and> o_id r \<noteq> orderId \<longrightarrow>
              dt_text (o_requested_datetime nxt) \<le> dt_text (o_requested_datetime r)) \<and>
           s' = insertLog (clock e 6) (o_id nxt) ''assigned'' (Some mobileId)
                  ''Auto-assigned from queue.''
                  (updateOrderStatus (clock e 5) ''assigned'' (o_id nxt)
                     (updateMobile mobileId
                        (\<lambda>m. m\<lparr>m_current_order_id := Some (o_id nxt),
                                m_location_lat := o_location_lat od,
                                m_location_lng := o_location_lng od\<rparr>)
                        (insertLog (clock e 2) orderId status (o_mobile_id od)
                           (noteOr notes (adminNote status))
                           (updateOrderStatus (clock e 1) status orderId s))))"
proof -
  let ?s2 = "insertLog (clock e 2) orderId status (o_mobile_id od)
               (noteOr notes (adminNote status))
               (updateOrderStatus (clock e 1) status orderId s)"
  from adminUpdateStatus_ok [OF ok] found
  have tr: "statusTransaction e orderId status notes od s = Inr s'" by auto
  from statusTransaction_terminal [OF tr terminal]
  have adv: "advanceQueue e od ?s2 = Inr s'" .
  have np: "status \<noteq> ''pending''" by (rule terminal_not_pending [OF terminal])
  have "nextPendingOrder mobileId ?s2 \<noteq> None"
  proof
    assume "nextPendingOrder mobileId ?s2 = None"
    from nextPendingOrder_None [OF np this] queued show False by blast
  qed
  then obtain nxt where nxt: "nextPendingOrder mobileId ?s2 = Some nxt" by blast
  from advanceQueue_ok [OF adv bound] nxt
  have s': "s' = insertLog (clock e 6) (o_id nxt) ''assigned'' (Some mobileId)
                  ''Auto-assigned from queue.''
                  (updateOrderStatus (clock e 5) ''assigned'' (o_id nxt)
                     (updateMobile mobileId
                        (\<lambda>m. m\<lparr>m_current_order_id := Some (o_id nxt),
                                m_location_lat := o_location_lat od,
                                m_location_lng := o_location_lng od\<rparr>) ?s2))"
    by simp
  from nextPendingOrder_Some [OF np nxt] s' show ?thesis by blast
qed

lemma adminUpdateStatus_releases:
  assumes ok: "adminUpdateStatus e orderId status notes s = (Inr (), s')"
    and terminal: "status = ''completed'' \<or> status = ''cancelled''"
    and found: "find (\<lambda>r. o_id r = orderId) (db_orders s) = Some od"
    and bound: "boundMobile od = Some mobileId"
    and idle: "\<forall>r\<in>set (db_orders s).
                 \<not> (o_mobile_id r = Some mobileId \<and> o_status r = ''pending'' \<and> o_id r \<noteq> orderId)"
  shows "s' = updateMobile mobileId
                (\<lambda>m. m\<lparr>m_is_available := 1, m_current_order_id := None,
                        m_available_from := sqlNow (clock e 4) - zone e,
                        m_location_lat := o_location_lat od,
                        m_location_lng := o_location_lng od\<rparr>)
                (insertLog (clock e 2) orderId status (o_mobile_id od)
                   (noteOr notes (adminNote status))
                   (updateOrderStatus (clock e 1) status orderId s))"
proof -
  let ?s2 = "insertLog (clock e 2) orderId status (o_mobile_id od)
               (noteOr notes (adminNote status))
               (updateOrderStatus (clock e 1) status orderId s)"
  from adminUpdateStatus_ok [OF ok] found
  have tr: "statusTransaction e orderId status notes od s = Inr s'" by auto
  from statusTransaction_terminal [OF tr terminal]
  have adv: "advanceQueue e od ?s2 = Inr s'" .
  have np: "status \<noteq> ''pending''" by (rule terminal_not_pending [OF terminal])
  have "nextPendingOrder mobileId ?s2 = None"
  proof (cases "nextPendingOrder mobileId ?s2")
    case None
    then show ?thesis .
  next
    case (Some nxt)
    from nextPendingOrder_Some [OF np Some] idle show ?thesis by blast
  qed
  with advanceQueue_ok [OF adv bound] show ?thesis by simp
qed

lemma promotion_frame:
  assumes ok: "adminUpdateStatus e orderId status notes s = (Inr (), s')"
    and terminal: "status = ''completed'' \<or> status = ''cancelled''"
    and found: "find (\<lambda>r. o_id r = orderId) (db_orders s) = Some od"
    and bound: "boundMobile od = Some mobileId"
    and queued: "\<exists>r\<in>set (db_orders s).
                   o_mobile_id r = Some mobileId \<and> o_status r = ''pending'' \<and> o_id r \<noteq> orderId"
  shows "map m_is_available (db_mobiles s') = map m_is_available (db_mobiles s) \<and>
         map m_available_from (db_mobiles s') = map m_available_from (db_mobiles s) \<and>
         (\<exists>nxt\<in>set (db_orders s).
            o_mobile_id nxt = Some mobileId \<and> o_status nxt = ''pending'' \<and> o_id nxt \<noteq> orderId \<and>
            db_mobiles s' =
              map (\<lambda>m. if m_id m = mobileId
                        then m\<lparr>m_current_order_id := Some (o_id nxt),
                               m_location_lat := o_location_lat od,
                               m_location_lng := o_location_lng od\<rparr>
                        else m) (db_mobiles s))"
proof -
  from adminUpdateStatus_promotes [OF ok terminal found bound queued] obtain nxt where
    mem: "nxt \<in> set (db_orders s)" and
    q: "o_mobile_id nxt = Some mobileId \<and> o_status nxt = ''pending'' \<and> o_id nxt \<noteq> orderId" and
    s': "s' = insertLog (clock e 6) (o_id nxt) ''assigned'' (Some mobileId)
                  ''Auto-assigned from queue.''
                  (updateOrderStatus (clock e 5) ''assigned'' (o_id nxt)
                     (updateMobile mobileId
                        (\<lambda>m. m\<lparr>m_current_order_id := Some (o_id nxt),
                                m_location_lat := o_location_lat od,
                                m_location_lng := o_location_lng od\<rparr>)
                        (insertLog (clock e 2) orderId status (o_mobile_id od)
                           (noteOr notes (adminNote status))
                           (updateOrderStatus (clock e 1) status orderId s))))"
    by blast
  have mob: "db_mobiles s' =
      map (\<lambda>m. if m_id m = mobileId
                then m\<lparr>m_current_order_id := Some (o_id nxt),
                       m_location_lat := o_location_lat od,
                       m_location_lng := o_location_lng od\<rparr>
                else m) (db_mobiles s)"
    by (simp add: s' db_mobiles_updateMobile)
  have a: "map m_is_available (db_mobiles s') = map m_is_available (db_mobiles s)"
    unfolding mob by (simp add: comp_def if_distrib cong: if_cong)
  have b: "map m_available_from (db_mobiles s') = map m_available_from (db_mobiles s)"
    unfolding mob by (simp add: comp_def if_distrib cong: if_cong)
  from a b mob mem q show ?thesis by blast
qed

lemma status_after_update_rows:
  "\<forall>r\<in>set (map (\<lambda>r. if o_id r = orderId then r\<lparr>o_status := status, o_updated_at := sqlNow now\<rparr> else r) rows).
     o_id r = orderId \<longrightarrow> o_status r = status"
proof (intro ballI impI)
  fix r assume a: "r \<in> set (map (\<lambda>r. if o_id r = orderId then r\<lparr>o_status := status, o_updated_at := sqlNow now\<rparr> else r) rows)"
    and b: "o_id r = orderId"
  from a obtain r0 where r0: "r0 \<in> set rows"
    and r: "r = (if o_id r0 = orderId then r0\<lparr>o_status := status, o_updated_at := sqlNow now\<rparr> else r0)"
    by (auto simp only: set_map image_iff)
  show "o_status r = status"
  proof (cases "o_id r0 = orderId")
    case True
    with r show ?thesis by simp
  next
    case False
    with r b show ?thesis by simp
  qed
qed

lemma status_after_update:
  "\<forall>r\<in>set (db_orders (updateOrderStatus now status orderId s)). o_id r = orderId \<longrightarrow> o_status r = status"
  unfolding db_orders_updateOrderStatus by (rule status_after_update_rows)

lemma status_kept_by_other_update:
  assumes "other \<noteq> orderId"
    and "\<forall>r\<in>set (db_orders s). o_id r = orderId \<longrightarrow> o_status r = status"
  shows "\<forall>r\<in>set (db_orders (updateOrderStatus now st other s)). o_id r = orderId \<longrightarrow> o_status r = status"
  using assms by (auto simp: db_orders_updateOrderStatus)

lemma adminUpdateStatus_transition:
  assumes ok: "adminUpdateStatus e orderId status notes s = (Inr (), s')"
  shows "\<exists>od rest.
           find (\<lambda>r. o_id r = orderId) (db_orders s) = Some od \<and>
           (\<forall>r\<in>set (db_orders s'). o_id r = orderId \<longrightarrow> o_status r = status) \<and>
           db_activity_logs s' =
             db_activity_logs s @
               \<lparr>l_order_id = orderId, l_status = status, l_mobile_id = o_mobile_id od,
                 l_notes = noteOr notes (adminNote status), l_timestamp = sqlNow (clock e 2)\<rparr> # rest \<and>
           (\<forall>l\<in>set rest. l_order_id l \<noteq> orderId)"
proof -
  from adminUpdateStatus_ok [OF ok] obtain od where
    found: "find (\<lambda>r. o_id r = orderId) (db_orders s) = Some od" and
    tr: "statusTransaction e orderId status notes od s = Inr s'"
    by blast
  let ?s1 = "updateOrderStatus (clock e 1) status orderId s"
  let ?s2 = "insertLog (clock e 2) orderId status (o_mobile_id od)
               (noteOr notes (adminNote status)) ?s1"
  let ?entry = "\<lparr>l_order_id = orderId, l_status = status, l_mobile_id = o_mobile_id od,
                 l_notes = noteOr notes (adminNote status), l_timestamp = sqlNow (clock e 2)\<rparr>"
  have st2: "\<forall>r\<in>set (db_orders ?s2). o_id r = orderId \<longrightarrow> o_status r = status"
    using status_after_update [of "clock e 1" status orderId s] by simp
  have lg2: "db_activity_logs ?s2 = db_activity_logs s @ [?entry]"
    by (simp add: db_logs_insertLog)
  consider
    (plain) "\<not> (status = ''completed'' \<or> status = ''cancelled'') \<or> boundMobile od = None"
    | (release) mobileId where "status = ''completed'' \<or> status = ''cancelled''"
        "boundMobile od = Some mobileId"
        "\<forall>r\<in>set (db_orders s).
           \<not> (o_mobile_id r = Some mobileId \<and> o_status r = ''pending'' \<and> o_id r \<noteq> orderId)"
    | (promote) mobileId where "status = ''completed'' \<or> status = ''cancelled''"
        "boundMobile od = Some mobileId"
        "\<exists>r\<in>set (db_orders s).
           o_mobile_id r = Some mobileId \<and> o_status r = ''pending'' \<and> o_id r \<noteq> orderId"
    by (cases "boundMobile od") blast+
  then show ?thesis
  proof cases
    case plain
    from statusTransaction_plain [OF tr plain] have "s' = ?s2" .
    with st2 lg2 have "(\<forall>r\<in>set (db_orders s'). o_id r = orderId \<longrightarrow> o_status r = status) \<and>
        db_activity_logs s' = db_activity_logs s @ ?entry # [] \<and>
        (\<forall>l\<in>set []. l_order_id l \<noteq> orderId)"
      by simp
    with found show ?thesis by blast
  next
    case release
    from adminUpdateStatus_releases [OF ok release(1) found release(2) release(3)]
    have "s' = updateMobile mobileId
                (\<lambda>m. m\<lparr>m_is_available := 1, m_current_order_id := None,
                        m_available_from := sqlNow (clock e 4) - zone e,
                        m_location_lat := o_location_lat od,
                        m_location_lng := o_location_lng od\<rparr>) ?s2" .
    with st2 lg2 have "(\<forall>r\<in>set (db_orders s'). o_id r = orderId \<longrightarrow> o_status r = status) \<and>
        db_activity_logs s' = db_activity_logs s @ ?entry # [] \<and>
        (\<forall>l\<in>set []. l_order_id l \<noteq> orderId)"
      by simp
    with found show ?thesis by blast
  next
    case promote
    from adminUpdateStatus_promotes [OF ok promote(1) found promote(2) promote(3)]
    obtain nxt where "nxt \<in> set (db_orders s)" and
      all: "o_mobile_id nxt = Some mobileId \<and> o_status nxt = ''pending'' \<and> o_id nxt \<noteq> orderId \<and>
           (\<forall>r\<in>set (db_orders s).
              o_mobile_id r = Some mobileId \<and> o_status r = ''pending'' \<and> o_id r \<noteq> orderId \<longrightarrow>
              dt_text (o_requested_datetime nxt) \<le> dt_text (o_requested_datetime r)) \<and>
           s' = insertLog (clock e 6) (o_id nxt) ''assigned'' (Some mobileId)
                  ''Auto-assigned from queue.''
                  (updateOrderStatus (clock e 5) ''assigned'' (o_id nxt)
                     (updateMobile mobileId
                        (\<lambda>m. m\<lparr>m_current_order_id := Some (o_id nxt),
                                m_location_lat := o_location_lat od,
                                m_location_lng := o_location_lng od\<rparr>) ?s2))"
      by (rule bexE)
    from all have ne: "o_id nxt \<noteq> orderId" by (elim conjE)
    from all have s': "s' = insertLog (clock e 6) (o_id nxt) ''assigned'' (Some mobileId)
                  ''Auto-assigned from queue.''
                  (updateOrderStatus (clock e 5) ''assigned'' (o_id nxt)
                     (updateMobile mobileId
                        (\<lambda>m. m\<lparr>m_current_order_id := Some (o_id nxt),
                                m_location_lat := o_location_lat od,
                                m_location_lng := o_location_lng od\<rparr>) ?s2))"
      by (elim conjE)
    let ?s3 = "updateMobile mobileId
                        (\<lambda>m. m\<lparr>m_current_order_id := Some (o_id nxt),
                                m_location_lat := o_location_lat od,
                                m_location_lng := o_location_lng od\<rparr>) ?s2"
    let ?rest = "[\<lparr>l_order_id = o_id nxt, l_status = ''assigned'', l_mobile_id = Some mobileId,
                   l_notes = ''Auto-assigned from queue.'', l_timestamp = sqlNow (clock e 6)\<rparr>]"
    have st3: "\<forall>r\<in>set (db_orders ?s3). o_id r = orderId \<longrightarrow> o_status r = status"
      using st2 by simp
    from status_kept_by_other_update [OF ne st3, of "clock e 5" "''assigned''"]
    have a: "\<forall>r\<in>set (db_orders s'). o_id r = orderId \<longrightarrow> o_status r = status"
      by (simp add: s')
    have b: "db_activity_logs s' = db_activity_logs s @ ?entry # ?rest"
      by (simp add: s' db_logs_insertLog)
    have c: "\<forall>l\<in>set ?rest. l_order_id l \<noteq> orderId"
      using ne by simp
    from found a b c show ?thesis by blast
  qed
qed


subsection \<open>The order route: status updates without the queue\<close>

text \<open>
  Claim C3. Every transition of an order with a bound unit to \<^verbatim>\<open>completed\<close> or
  \<^verbatim>\<open>cancelled\<close> should promote the earliest-requested pending order of the unit (status
  \<^verbatim>\<open>assigned\<close>, the unit's current order and location updated) or, with none pending,
  release the unit (flag 1, no current order, \<open>available_from\<close> now, location of the finished
  order). The admin route does so (\<open>adminUpdateStatus_promotes\<close>,
  \<open>adminUpdateStatus_releases\<close>); the order route \<^verbatim>\<open>PATCH /:id/status\<close> does not. Completing
  order 1 while order 2 waits on the same unit leaves order 2 pending and the unit as it
  was; cancelling the only order of a unit leaves the unit busy with it; completing it
  clears the flag and the current order but keeps the old \<open>available_from\<close>.
\<close>

theorem order_route_skips_queue:
  "fst (updateStatus (calm 600000) 1 ''completed'' None dbConfirmed) = Inr () \<and>
   map o_status (db_orders (snd (updateStatus (calm 600000) 1 ''completed'' None dbConfirmed))) =
     [''completed'', ''pending''] \<and>
   db_mobiles (snd (updateStatus (calm 600000) 1 ''completed'' None dbConfirmed)) =
     db_mobiles dbConfirmed \<and>
   fst (updateStatus (calm 600000) 1 ''cancelled'' None dbOneOrder) = Inr () \<and>
   db_mobiles (snd (updateStatus (calm 600000) 1 ''cancelled'' None dbOneOrder)) =
     [unitAlpha\<lparr>m_available_from := 3600000, m_is_available := 0, m_current_order_id := Some 1\<rparr>] \<and>
   db_mobiles (snd (updateStatus (calm 600000) 1 ''completed'' None dbOneOrder)) =
     [unitAlpha\<lparr>m_available_from := 3600000, m_is_available := 1, m_current_order_id := None\<rparr>]"
  by (simp add: updateStatus_def validStatuses_def updateOrderStatus_def insertLog_def sqlNow_def
        releaseByOrder_def noteOr_def dbConfirmed_def dbOneOrder_def orderOne_def orderTwo_def
        unitAlpha_def)

text \<open>
  Claim C7. A status update for an order that does not exist should fail and leave orders,
  units and log unchanged. The admin route does (\<open>adminUpdateStatus_not_found\<close>); the order
  route never looks the order up: for the unknown order 99 it answers with success and
  appends a log entry for it.
\<close>

theorem order_route_logs_missing_order:
  "find (\<lambda>r. o_id r = 99) (db_orders dbConfirmed) = None \<and>
   updateStatus (calm 600000) 99 ''washing'' None dbConfirmed =
     (Inr (),
      dbConfirmed\<lparr>db_activity_logs := db_activity_logs dbConfirmed @
        [\<lparr>l_order_id = 99, l_status = ''washing'', l_mobile_id = None,
          l_notes = ''Status updated'', l_timestamp = 600000\<rparr>]\<rparr>)"
  by (simp add: updateStatus_def validStatuses_def updateOrderStatus_def insertLog_def sqlNow_def
        noteOr_def dbConfirmed_def orderOne_def orderTwo_def)

text \<open>
  Claim C4. The writes of creating an order and of a status update should commit or roll
  back together. The admin route wraps its writes in a transaction
  (\<open>adminUpdateStatus_atomic\<close>); \<^verbatim>\<open>POST /\<close> and the order route's status update do not.
  When the \<^verbatim>\<open>UPDATE\<close> of the unit fails during \<^verbatim>\<open>POST /\<close>, the order stays in the store,
  bound to Alpha, while Alpha is still free with no current order and nothing is logged;
  when the log \<^verbatim>\<open>INSERT\<close> of a status update fails, the new status stays.
\<close>

theorem createJob_partial_write:
  "createJob (failingAt 4 0) requestOne dbMorning =
     (Inl (DbError 4), dbMorning\<lparr>db_orders := [orderOne], db_orders_seq := 1\<rparr>, None) \<and>
   o_mobile_id orderOne = Some (m_id unitAlpha) \<and>
   db_mobiles (dbMorning\<lparr>db_orders := [orderOne], db_orders_seq := 1\<rparr>) = [unitAlpha] \<and>
   m_is_available unitAlpha = 1 \<and> m_current_order_id unitAlpha = None \<and>
   db_activity_logs (dbMorning\<lparr>db_orders := [orderOne], db_orders_seq := 1\<rparr>) = [] \<and>
   updateStatus (failingAt 1 600000) 1 ''completed'' None dbConfirmed =
     (Inl (DbError 1),
      dbConfirmed\<lparr>db_orders := [orderOne\<lparr>o_status := ''completed'', o_updated_at := 600000\<rparr>,
                                 orderTwo]\<rparr>)"
proof -
  have loc: "location_lat requestOne = m_location_lat unitAlpha"
    "location_lng requestOne = m_location_lng unitAlpha"
    by (simp_all add: requestOne_def unitAlpha_def)
  have act: "activeOrders dbMorning = []" by (simp add: activeOrders_def dbMorning_def)
  have mob: "db_mobiles dbMorning = [unitAlpha]" by (simp add: dbMorning_def)
  have price: "s_price (generateOrderSummary requestOne (unitAlpha, Number 0)) = Some 110"
    by (simp add: generateOrderSummary_def requestOne_def calculatePrice_def)
  have ins: "insertOrder 0 requestOne 110 (generateOrderSummary requestOne (unitAlpha, Number 0))
      (unitAlpha, Number 0) dbMorning = dbMorning\<lparr>db_orders := [orderOne], db_orders_seq := 1\<rparr>"
    by (simp add: insertOrder_def nextOrderId_def generateOrderSummary_def calculateDuration_def
          sqlNow_def dbMorning_def unitAlpha_def requestOne_def orderOne_def)
  have a: "createJob (failingAt 4 0) requestOne dbMorning =
     (Inl (DbError 4), dbMorning\<lparr>db_orders := [orderOne], db_orders_seq := 1\<rparr>, None)"
    by (simp add: createJob_def validate_requestOne loc act mob find_morning Let_def price ins)
  have b: "o_mobile_id orderOne = Some (m_id unitAlpha)"
    by (simp add: orderOne_def unitAlpha_def)
  have c: "db_mobiles (dbMorning\<lparr>db_orders := [orderOne], db_orders_seq := 1\<rparr>) = [unitAlpha]"
    by (simp add: dbMorning_def)
  have d: "m_is_available unitAlpha = 1" "m_current_order_id unitAlpha = None"
    by (simp_all add: unitAlpha_def)
  have f: "db_activity_logs (dbMorning\<lparr>db_orders := [orderOne], db_orders_seq := 1\<rparr>) = []"
    by (simp add: dbMorning_def)
  have g: "updateStatus (failingAt 1 600000) 1 ''completed'' None dbConfirmed =
     (Inl (DbError 1),
      dbConfirmed\<lparr>db_orders := [orderOne\<lparr>o_status := ''completed'', o_updated_at := 600000\<rparr>,
                                 orderTwo]\<rparr>)"
    by (simp add: updateStatus_def validStatuses_def updateOrderStatus_def sqlNow_def
          dbConfirmed_def orderOne_def orderTwo_def)
  from a b c d f g show ?thesis by (intro conjI)
qed


subsection \<open>The deferred confirmation\<close>

text \<open>
  A request whose three writes went through, whether or not \<^verbatim>\<open>generatePDF\<close> failed after
  them: what it wrote and the timer it armed.
\<close>

lemma createJob_committed:
  assumes run: "createJob e d s = (response, s', timer)"
    and reached: "response = Inl PdfError \<or> (\<exists>created. response = Inr created)"
  shows "\<exists>best price.
           findBestMobile (rounding e) (clock e 2) (db_mobiles s) (location_lat d)
             (location_lng d) (activeOrders s) = Some best \<and>
           s_price (generateOrderSummary d best) = Some price \<and>
           s' = insertLog (clock e 5) (nextOrderId s) ''pending'' (Some (m_id (fst best)))
                  ''Order created and mobile assigned''
                  (updateMobile (m_id (fst best))
                     (\<lambda>m. m\<lparr>m_is_available := 0, m_current_order_id := Some (nextOrderId s),
                             m_available_from :=
                               clock e 4 + s_duration (generateOrderSummary d best) * 60000\<rparr>)
                     (insertOrder (clock e 3) d price (generateOrderSummary d best) best s)) \<and>
           timer = (if trulyAvailable (clock e 6) (fst best)
                    then Some (nextOrderId s, m_id (fst best), \<not> fails e 7) else None) \<and>
           response = (if fails e 7 then Inl PdfError
                       else Inr (nextOrderId s, generateOrderSummary d best))"
proof -
  let ?find = "findBestMobile (rounding e) (clock e 2) (db_mobiles s) (location_lat d)
                 (location_lng d) (activeOrders s)"
  have ne: "response \<noteq> Inl ValidationFailed" "response \<noteq> Inl NoMobileAvailable"
    "\<And>k. response \<noteq> Inl (DbError k)"
    using reached by auto
  have v0: "validateOrder d"
  proof (rule ccontr)
    assume "\<not> validateOrder d"
    then have "createJob e d s = (Inl ValidationFailed, s, None)" by (simp add: createJob_def)
    with run ne show False by (metis fst_conv)
  qed
  have v1: "\<not> fails e 0"
  proof
    assume "fails e 0"
    with v0 have "createJob e d s = (Inl (DbError 0), s, None)" by (simp add: createJob_def)
    with run ne show False by (metis fst_conv)
  qed
  have v2: "\<not> fails e 1"
  proof
    assume "fails e 1"
    with v0 v1 have "createJob e d s = (Inl (DbError 1), s, None)" by (simp add: createJob_def)
    with run ne show False by (metis fst_conv)
  qed
  note v = v0 v1 v2
  have "?find \<noteq> None"
  proof
    assume "?find = None"
    with v have "createJob e d s = (Inl NoMobileAvailable, s, None)" by (simp add: createJob_def)
    with run ne show False by (metis fst_conv)
  qed
  then obtain best where best: "?find = Some best" by blast
  have "s_price (generateOrderSummary d best) \<noteq> None"
  proof
    assume "s_price (generateOrderSummary d best) = None"
    with v best have "createJob e d s = (Inl (DbError 3), s, None)"
      by (simp add: createJob_def Let_def)
    with run ne show False by (metis fst_conv)
  qed
  then obtain price where price: "s_price (generateOrderSummary d best) = Some price" by blast
  have f3: "\<not> fails e 3"
  proof
    assume "fails e 3"
    with v best price have "createJob e d s = (Inl (DbError 3), s, None)"
      by (simp add: createJob_def Let_def)
    with run ne show False by (metis fst_conv)
  qed
  have f4: "\<not> fails e 4"
  proof
    assume "fails e 4"
    with v best price f3 have "fst (createJob e d s) = Inl (DbError 4)"
      by (simp add: createJob_def Let_def)
    with run ne show False by (metis fst_conv)
  qed
  have f5: "\<not> fails e 5"
  proof
    assume "fails e 5"
    with v best price f3 f4 have "fst (createJob e d s) = Inl (DbError 5)"
      by (simp add: createJob_def Let_def)
    with run ne show False by (metis fst_conv)
  qed
  note f = f3 f4 f5
  let ?S = "insertLog (clock e 5) (nextOrderId s) ''pending'' (Some (m_id (fst best)))
       ''Order created and mobile assigned''
       (updateMobile (m_id (fst best))
          (\<lambda>m. m\<lparr>m_is_available := 0, m_current_order_id := Some (nextOrderId s),
                  m_available_from := clock e 4 + s_duration (generateOrderSummary d best) * 60000\<rparr>)
          (insertOrder (clock e 3) d price (generateOrderSummary d best) best s))"
  let ?T = "if trulyAvailable (clock e 6) (fst best)
            then Some (nextOrderId s, m_id (fst best), \<not> fails e 7) else None"
  let ?R = "if fails e 7 then Inl PdfError
            else Inr (nextOrderId s, generateOrderSummary d best) :: error + int \<times> order_summary"
  have run': "createJob e d s = (?R, ?S, ?T)"
    using v best price f by (simp add: createJob_def Let_def)
  have eq: "(response, s', timer) = (?R, ?S, ?T)"
    using run unfolding run' by (rule sym)
  from eq have e1: "response = ?R" by simp
  from eq have e2: "s' = ?S" by simp
  from eq have e3: "timer = ?T" by simp
  from best price e1 e2 e3 show ?thesis by blast
qed

lemma trulyAvailable_later:
  "trulyAvailable t m \<Longrightarrow> t \<le> t' \<Longrightarrow> trulyAvailable t' m"
  by (simp add: trulyAvailable_def)

lemma autoUpdate_idle:
  assumes "\<forall>r\<in>set (db_orders s). o_id r = orderId \<longrightarrow> o_status r \<noteq> ''pending''"
  shows "autoUpdate e io orderId mobileId s = (Returned, s)"
proof -
  let ?P = "\<lambda>r. o_id r = orderId \<and> o_status r = ''pending''"
  let ?f = "\<lambda>r. if ?P r then r\<lparr>o_status := ''assigned'', o_updated_at := sqlNow (clock e 0)\<rparr> else r"
  from assms have none: "\<forall>r\<in>set (db_orders s). \<not> ?P r" by blast
  then have "filter ?P (db_orders s) = []" by (simp add: filter_empty_conv)
  then have zero: "length (filter ?P (db_orders s)) = 0" by simp
  have "map ?f (db_orders s) = db_orders s"
  proof (rule map_idI)
    fix x assume "x \<in> set (db_orders s)"
    with none have np: "\<not> (o_id x = orderId \<and> o_status x = ''pending'')" by blast
    show "?f x = x" by (simp only: np if_False)
  qed
  then have same: "s\<lparr>db_orders := map ?f (db_orders s)\<rparr> = s" by simp
  show ?thesis
    unfolding autoUpdate_def Let_def zero same by simp
qed

lemma autoUpdate_promotes:
  assumes "\<not> fails e 0"
    and "\<exists>r\<in>set (db_orders s). o_id r = orderId \<and> o_status r = ''pending''"
  shows "autoUpdate e io orderId mobileId s =
           (if io then Confirmed else Exited,
            if io \<and> \<not> fails e 1
            then insertLog (clock e 1) orderId ''assigned'' (Some mobileId)
                   ''Order automatically confirmed and assigned''
                   (s\<lparr>db_orders :=
                        map (\<lambda>r. if o_id r = orderId \<and> o_status r = ''pending''
                                  then r\<lparr>o_status := ''assigned'',
                                         o_updated_at := sqlNow (clock e 0)\<rparr> else r)
                          (db_orders s)\<rparr>)
            else s\<lparr>db_orders :=
                     map (\<lambda>r. if o_id r = orderId \<and> o_status r = ''pending''
                               then r\<lparr>o_status := ''assigned'',
                                      o_updated_at := sqlNow (clock e 0)\<rparr> else r)
                       (db_orders s)\<rparr>)"
proof -
  let ?P = "\<lambda>r. o_id r = orderId \<and> o_status r = ''pending''"
  from assms(2) have "filter ?P (db_orders s) \<noteq> []" by (simp add: filter_empty_conv)
  then have pos: "length (filter ?P (db_orders s)) \<noteq> 0" by simp
  show ?thesis
    using assms(1) pos unfolding autoUpdate_def Let_def by simp
qed

text \<open>
  Claim C9. When the three writes of \<^verbatim>\<open>POST /\<close> have gone through (the response is the
  created order, or the failure of \<^verbatim>\<open>generatePDF\<close> after them) for a unit that was free at
  dispatch, the request has armed one timer, for the order it has just stored as pending
  on that unit (the clock not running backwards between dispatch and the test). When the
  timer fires on a store in which that order is not pending, the callback returns and
  orders, units and log are the same. When the order is still pending and the \<^verbatim>\<open>UPDATE\<close>
  runs, its status becomes \<^verbatim>\<open>assigned\<close> and nothing else changes in orders and units. What
  follows the promotion depends on the request that armed the timer: if \<^verbatim>\<open>generatePDF\<close>
  had failed, \<^verbatim>\<open>io\<close> is uninitialised, the callback throws and the log is left as it was;
  otherwise one log entry is appended, unless its \<^verbatim>\<open>INSERT\<close> fails. The three-minute delay
  itself is not modelled: the callback may meet any later store.
\<close>

theorem deferred_confirmation:
  "(createJob e orderData s = (response, s', timer) \<and>
    (response = Inl PdfError \<or> (\<exists>created. response = Inr created)) \<and>
    findBestMobile (rounding e) (clock e 2) (db_mobiles s) (location_lat orderData)
      (location_lng orderData) (activeOrders s) = Some (best, distance) \<and>
    trulyAvailable (clock e 2) best \<and> clock e 2 \<le> clock e 6
    \<longrightarrow> timer = Some (nextOrderId s, m_id best, response \<noteq> Inl PdfError) \<and>
        (\<exists>r\<in>set (db_orders s'). o_id r = nextOrderId s \<and> o_status r = ''pending'' \<and>
                                  o_mobile_id r = Some (m_id best)) \<and>
        (response = Inl PdfError \<or>
         response = Inr (nextOrderId s, generateOrderSummary orderData (best, distance)))) \<and>
   ((\<forall>r\<in>set (db_orders later). o_id r = orderId \<longrightarrow> o_status r \<noteq> ''pending'')
    \<longrightarrow> autoUpdate e' io orderId mobileId later = (Returned, later)) \<and>
   (\<not> fails e' 0 \<and>
    (\<exists>r\<in>set (db_orders later). o_id r = orderId \<and> o_status r = ''pending'')
    \<longrightarrow> fst (autoUpdate e' io orderId mobileId later) = (if io then Confirmed else Exited) \<and>
        db_orders (snd (autoUpdate e' io orderId mobileId later)) =
          map (\<lambda>r. if o_id r = orderId \<and> o_status r = ''pending''
                    then r\<lparr>o_status := ''assigned'', o_updated_at := sqlNow (clock e' 0)\<rparr> else r)
            (db_orders later) \<and>
        db_mobiles (snd (autoUpdate e' io orderId mobileId later)) = db_mobiles later \<and>
        db_activity_logs (snd (autoUpdate e' io orderId mobileId later)) =
          (if io \<and> \<not> fails e' 1
           then db_activity_logs later @
                  [\<lparr>l_order_id = orderId, l_status = ''assigned'', l_mobile_id = Some mobileId,
                    l_notes = ''Order automatically confirmed and assigned'',
                    l_timestamp = sqlNow (clock e' 1)\<rparr>]
           else db_activity_logs later))"
proof (intro conjI impI)
  assume a: "createJob e orderData s = (response, s', timer) \<and>
    (response = Inl PdfError \<or> (\<exists>created. response = Inr created)) \<and>
    findBestMobile (rounding e) (clock e 2) (db_mobiles s) (location_lat orderData)
      (location_lng orderData) (activeOrders s) = Some (best, distance) \<and>
    trulyAvailable (clock e 2) best \<and> clock e 2 \<le> clock e 6"
  then have run: "createJob e orderData s = (response, s', timer)" by (elim conjE)
  from a have reached: "response = Inl PdfError \<or> (\<exists>created. response = Inr created)"
    by (elim conjE)
  from a have found: "findBestMobile (rounding e) (clock e 2) (db_mobiles s)
      (location_lat orderData) (location_lng orderData) (activeOrders s) = Some (best, distance)"
    by (elim conjE)
  from a have now: "trulyAvailable (clock e 2) best" by (elim conjE)
  from a have mono: "clock e 2 \<le> clock e 6" by (elim conjE)
  have free: "trulyAvailable (clock e 6) best" by (rule trulyAvailable_later [OF now mono])
  let ?sm = "generateOrderSummary orderData (best, distance)"
  from createJob_committed [OF run reached] obtain chosen where
    "\<exists>price.
       findBestMobile (rounding e) (clock e 2) (db_mobiles s) (location_lat orderData)
         (location_lng orderData) (activeOrders s) = Some chosen \<and>
       s_price (generateOrderSummary orderData chosen) = Some price \<and>
       s' = insertLog (clock e 5) (nextOrderId s) ''pending'' (Some (m_id (fst chosen)))
              ''Order created and mobile assigned''
              (updateMobile (m_id (fst chosen))
                 (\<lambda>m. m\<lparr>m_is_available := 0, m_current_order_id := Some (nextOrderId s),
                         m_available_from :=
                           clock e 4 + s_duration (generateOrderSummary orderData chosen) * 60000\<rparr>)
                 (insertOrder (clock e 3) orderData price (generateOrderSummary orderData chosen)
                    chosen s)) \<and>
       timer = (if trulyAvailable (clock e 6) (fst chosen)
                then Some (nextOrderId s, m_id (fst chosen), \<not> fails e 7) else None) \<and>
       response = (if fails e 7 then Inl PdfError
                   else Inr (nextOrderId s, generateOrderSummary orderData chosen))"
    by (rule exE)
  then obtain price where all:
      "findBestMobile (rounding e) (clock e 2) (db_mobiles s) (location_lat orderData)
         (location_lng orderData) (activeOrders s) = Some chosen \<and>
       s_price (generateOrderSummary orderData chosen) = Some price \<and>
       s' = insertLog (clock e 5) (nextOrderId s) ''pending'' (Some (m_id (fst chosen)))
              ''Order created and mobile assigned''
              (updateMobile (m_id (fst chosen))
                 (\<lambda>m. m\<lparr>m_is_available := 0, m_current_order_id := Some (nextOrderId s),
                         m_available_from :=
                           clock e 4 + s_duration (generateOrderSummary orderData chosen) * 60000\<rparr>)
                 (insertOrder (clock e 3) orderData price (generateOrderSummary orderData chosen)
                    chosen s)) \<and>
       timer = (if trulyAvailable (clock e 6) (fst chosen)
                then Some (nextOrderId s, m_id (fst chosen), \<not> fails e 7) else None) \<and>
       response = (if fails e 7 then Inl PdfError
                   else Inr (nextOrderId s, generateOrderSummary orderData chosen))"
    by (rule exE)
  from all have "findBestMobile (rounding e) (clock e 2) (db_mobiles s) (location_lat orderData)
         (location_lng orderData) (activeOrders s) = Some chosen"
    by (elim conjE)
  with found have chosen: "chosen = (best, distance)" by simp
  from all have orders: "db_orders s' = db_orders (insertOrder (clock e 3) orderData price
      (generateOrderSummary orderData chosen) chosen s)"
    by (elim conjE) simp
  from all have t: "timer = (if trulyAvailable (clock e 6) best
                     then Some (nextOrderId s, m_id best, \<not> fails e 7) else None)"
    unfolding chosen fst_conv by (elim conjE)
  from all have r: "response = (if fails e 7 then Inl PdfError else Inr (nextOrderId s, ?sm))"
    unfolding chosen by (elim conjE)
  from r have pdf: "(response \<noteq> Inl PdfError) = (\<not> fails e 7)" by simp
  from t free pdf show "timer = Some (nextOrderId s, m_id best, response \<noteq> Inl PdfError)"
    by simp
  show "\<exists>r\<in>set (db_orders s'). o_id r = nextOrderId s \<and> o_status r = ''pending'' \<and>
                                  o_mobile_id r = Some (m_id best)"
    unfolding orders chosen by (simp add: insertOrder_def)
  from r show "response = Inl PdfError \<or> response = Inr (nextOrderId s, ?sm)"
    by simp
next
  assume "\<forall>r\<in>set (db_orders later). o_id r = orderId \<longrightarrow> o_status r \<noteq> ''pending''"
  then show "autoUpdate e' io orderId mobileId later = (Returned, later)"
    by (rule autoUpdate_idle)
next
  assume a: "\<not> fails e' 0 \<and>
    (\<exists>r\<in>set (db_orders later). o_id r = orderId \<and> o_status r = ''pending'')"
  let ?s1 = "later\<lparr>db_orders :=
                  map (\<lambda>r. if o_id r = orderId \<and> o_status r = ''pending''
                            then r\<lparr>o_status := ''assigned'', o_updated_at := sqlNow (clock e' 0)\<rparr>
                            else r)
                    (db_orders later)\<rparr>"
  from a have nf: "\<not> fails e' 0" by (elim conjE)
  from a have pend: "\<exists>r\<in>set (db_orders later). o_id r = orderId \<and> o_status r = ''pending''"
    by (elim conjE)
  have eq: "autoUpdate e' io orderId mobileId later =
           (if io then Confirmed else Exited,
            if io \<and> \<not> fails e' 1
            then insertLog (clock e' 1) orderId ''assigned'' (Some mobileId)
                   ''Order automatically confirmed and assigned'' ?s1
            else ?s1)"
    by (rule autoUpdate_promotes [OF nf pend])
  show "fst (autoUpdate e' io orderId mobileId later) = (if io then Confirmed else Exited)"
    unfolding eq by simp
  show "db_orders (snd (autoUpdate e' io orderId mobileId later)) =
          map (\<lambda>r. if o_id r = orderId \<and> o_status r = ''pending''
                    then r\<lparr>o_status := ''assigned'', o_updated_at := sqlNow (clock e' 0)\<rparr> else r)
            (db_orders later)"
    unfolding eq by simp
  show "db_mobiles (snd (autoUpdate e' io orderId mobileId later)) = db_mobiles later"
    unfolding eq by simp
  show "db_activity_logs (snd (autoUpdate e' io orderId mobileId later)) =
          (if io \<and> \<not> fails e' 1
           then db_activity_logs later @
                  [\<lparr>l_order_id = orderId, l_status = ''assigned'', l_mobile_id = Some mobileId,
                    l_notes = ''Order automatically confirmed and assigned'',
                    l_timestamp = sqlNow (clock e' 1)\<rparr>]
           else db_activity_logs later)"
    unfolding eq by (simp add: db_logs_insertLog)
qed


theorem deferred_confirmation_witness:
  "createJob (calm 0) requestOne dbMorning =
     (Inr (1, generateOrderSummary requestOne (unitAlpha, Number 0)), dbOneOrder,
      Some (1, m_id unitAlpha, True)) \<and>
   createJob (failingAt 7 0) requestOne dbMorning =
     (Inl PdfError, dbOneOrder, Some (1, m_id unitAlpha, False)) \<and>
   trulyAvailable 0 unitAlpha \<and>
   (\<exists>r\<in>set (db_orders dbOneOrder). o_id r = 1 \<and> o_status r = ''pending'' \<and>
                                       o_mobile_id r = Some (m_id unitAlpha)) \<and>
   autoUpdate (calm 180000) True 1 1 dbPromoted = (Returned, dbPromoted) \<and>
   \<not> fails (calm 180000) 0 \<and>
   (\<exists>r\<in>set (db_orders dbTwoOrders). o_id r = 1 \<and> o_status r = ''pending'') \<and>
   fst (autoUpdate (calm 180000) True 1 1 dbTwoOrders) = Confirmed \<and>
   db_orders (snd (autoUpdate (calm 180000) True 1 1 dbTwoOrders)) = db_orders dbConfirmed \<and>
   db_mobiles (snd (autoUpdate (calm 180000) True 1 1 dbTwoOrders)) = db_mobiles dbTwoOrders \<and>
   db_activity_logs (snd (autoUpdate (calm 180000) True 1 1 dbTwoOrders)) =
     db_activity_logs dbTwoOrders @ [logConfirmed] \<and>
   fst (autoUpdate (calm 180000) False 1 1 dbTwoOrders) = Exited \<and>
   db_orders (snd (autoUpdate (calm 180000) False 1 1 dbTwoOrders)) = db_orders dbConfirmed \<and>
   db_activity_logs (snd (autoUpdate (calm 180000) False 1 1 dbTwoOrders)) =
     db_activity_logs dbTwoOrders"
proof -
  let ?sm = "generateOrderSummary requestOne (unitAlpha, Number 0)"
  let ?f = "\<lambda>r. if o_id r = 1 \<and> o_status r = ''pending''
                 then r\<lparr>o_status := ''assigned'', o_updated_at := sqlNow (clock (calm 180000) 0)\<rparr>
                 else r"
  have nid: "nextOrderId dbMorning = 1" by (simp add: nextOrderId_def dbMorning_def)
  have run: "createJob (calm 0) requestOne dbMorning = (Inr (1, ?sm), dbOneOrder, Some (1, 1, True))"
    by (rule day_first_order)
  have runPdf: "createJob (failingAt 7 0) requestOne dbMorning =
      (Inl PdfError, dbOneOrder, Some (1, 1, False))"
    by (rule day_first_order_pdf)
  have find: "findBestMobile (rounding (calm 0)) (clock (calm 0) 2) (db_mobiles dbMorning)
      (location_lat requestOne) (location_lng requestOne) (activeOrders dbMorning) =
      Some (unitAlpha, Number 0)"
    using find_morning
    by (simp add: dbMorning_def activeOrders_def requestOne_def unitAlpha_def)
  have findPdf: "findBestMobile (rounding (failingAt 7 0)) (clock (failingAt 7 0) 2)
      (db_mobiles dbMorning) (location_lat requestOne) (location_lng requestOne)
      (activeOrders dbMorning) = Some (unitAlpha, Number 0)"
    using find_morning
    by (simp add: dbMorning_def activeOrders_def requestOne_def unitAlpha_def)
  have free: "trulyAvailable 0 unitAlpha"
    by (simp add: trulyAvailable_def unitAlpha_def)
  have mid: "m_id unitAlpha = 1" by (simp add: unitAlpha_def)
  have reach: "(Inr (1, ?sm) :: error + int \<times> order_summary) = Inl PdfError \<or>
      (\<exists>created. (Inr (1, ?sm) :: error + int \<times> order_summary) = Inr created)"
    by simp
  have reachPdf: "(Inl PdfError :: error + int \<times> order_summary) = Inl PdfError \<or>
      (\<exists>created. (Inl PdfError :: error + int \<times> order_summary) = Inr created)"
    by simp
  have now: "trulyAvailable (clock (calm 0) 2) unitAlpha" using free by simp
  have mono: "clock (calm 0) 2 \<le> clock (calm 0) 6" by simp
  have nowPdf: "trulyAvailable (clock (failingAt 7 0) 2) unitAlpha" using free by simp
  have monoPdf: "clock (failingAt 7 0) 2 \<le> clock (failingAt 7 0) 6" by simp
  have idle: "\<forall>r\<in>set (db_orders dbPromoted). o_id r = 1 \<longrightarrow> o_status r \<noteq> ''pending''"
    by (simp add: dbPromoted_def orderOne_def orderTwo_def)
  have pend: "\<exists>r\<in>set (db_orders dbTwoOrders). o_id r = 1 \<and> o_status r = ''pending''"
    by (simp add: dbTwoOrders_def orderOne_def)
  have nf: "\<not> fails (calm 180000) 0" by simp
  note armed = deferred_confirmation
    [where e = "calm 0" and orderData = requestOne and s = dbMorning
       and response = "Inr (1, ?sm)" and s' = dbOneOrder and timer = "Some (1, 1, True)"
       and best = unitAlpha and distance = "Number 0",
     THEN conjunct1, THEN mp,
     OF conjI [OF run conjI [OF reach conjI [OF find conjI [OF now mono]]]]]
  note armedPdf = deferred_confirmation
    [where e = "failingAt 7 0" and orderData = requestOne and s = dbMorning
       and response = "Inl PdfError" and s' = dbOneOrder and timer = "Some (1, 1, False)"
       and best = unitAlpha and distance = "Number 0",
     THEN conjunct1, THEN mp,
     OF conjI [OF runPdf conjI [OF reachPdf conjI [OF findPdf conjI [OF nowPdf monoPdf]]]]]
  note fired = deferred_confirmation
    [where e' = "calm 180000" and orderId = 1 and mobileId = 1]
  note b = fired [where later = dbPromoted and io = True, THEN conjunct2, THEN conjunct1,
      THEN mp, OF idle]
  note c = fired [where later = dbTwoOrders and io = True, THEN conjunct2, THEN conjunct2,
      THEN mp, OF conjI [OF nf pend]]
  note d = fired [where later = dbTwoOrders and io = False, THEN conjunct2, THEN conjunct2,
      THEN mp, OF conjI [OF nf pend]]
  have c1: "map ?f (db_orders dbTwoOrders) = db_orders dbConfirmed"
    by (simp add: sqlNow_def dbTwoOrders_def dbConfirmed_def orderOne_def orderTwo_def)
  have c3: "[\<lparr>l_order_id = 1, l_status = ''assigned'', l_mobile_id = Some 1,
              l_notes = ''Order automatically confirmed and assigned'',
              l_timestamp = sqlNow (clock (calm 180000) 1)\<rparr>] = [logConfirmed]"
    by (simp add: sqlNow_def logConfirmed_def)
  from armed [THEN conjunct1] have r': "createJob (calm 0) requestOne dbMorning =
     (Inr (1, ?sm), dbOneOrder, Some (1, m_id unitAlpha, True))"
    unfolding run nid by simp
  from armedPdf [THEN conjunct1] have rp: "createJob (failingAt 7 0) requestOne dbMorning =
     (Inl PdfError, dbOneOrder, Some (1, m_id unitAlpha, False))"
    unfolding runPdf nid by simp
  from armed [THEN conjunct2, THEN conjunct1]
  have q: "\<exists>r\<in>set (db_orders dbOneOrder). o_id r = 1 \<and> o_status r = ''pending'' \<and>
                                       o_mobile_id r = Some (m_id unitAlpha)"
    unfolding nid .
  from c have c': "fst (autoUpdate (calm 180000) True 1 1 dbTwoOrders) = Confirmed \<and>
   db_orders (snd (autoUpdate (calm 180000) True 1 1 dbTwoOrders)) = db_orders dbConfirmed \<and>
   db_mobiles (snd (autoUpdate (calm 180000) True 1 1 dbTwoOrders)) = db_mobiles dbTwoOrders \<and>
   db_activity_logs (snd (autoUpdate (calm 180000) True 1 1 dbTwoOrders)) =
     db_activity_logs dbTwoOrders @ [logConfirmed]"
    unfolding c1 c3 by simp
  from d have d': "fst (autoUpdate (calm 180000) False 1 1 dbTwoOrders) = Exited \<and>
   db_orders (snd (autoUpdate (calm 180000) False 1 1 dbTwoOrders)) = db_orders dbConfirmed \<and>
   db_activity_logs (snd (autoUpdate (calm 180000) False 1 1 dbTwoOrders)) =
     db_activity_logs dbTwoOrders"
    unfolding c1 by simp
  note c'1 = c' [THEN conjunct1]
  note c'2 = c' [THEN conjunct2, THEN conjunct1]
  note c'3 = c' [THEN conjunct2, THEN conjunct2, THEN conjunct1]
  note c'4 = c' [THEN conjunct2, THEN conjunct2, THEN conjunct2]
  note d'1 = d' [THEN conjunct1]
  note d'2 = d' [THEN conjunct2, THEN conjunct1]
  note d'3 = d' [THEN conjunct2, THEN conjunct2]
  from r' rp free q b nf pend c'1 c'2 c'3 c'4 d'1 d'2 d'3 show ?thesis by (intro conjI)
qed

subsection \<open>Promotion and the availability estimate\<close>

text \<open>
  Claim C10 says that a promotion leaves the flag and \<open>available_from\<close> of the unit
  unchanged, so that the unit remains marked busy and keeps the estimate computed for the
  just-finished order. The first half holds; what the unit keeps need be neither. On the
  day of requests the first order gives Alpha the estimate 0 + 60 minutes; the second
  order, queued on Alpha a minute later, overwrites it with 1 + 65 minutes; when the first
  order is completed and the second promoted, Alpha keeps 1 + 65 minutes, the estimate
  computed for the promoted order. Later the second order is completed, which releases
  Alpha (flag 1, \<open>available_from\<close> the time of the release); the first order is set back to
  \<^verbatim>\<open>pending\<close> and the second cancelled, which promotes the first: Alpha now serves it
  with the flag still 1 and the time of the release as \<open>available_from\<close>.
\<close>

theorem promotion_estimate_counterexample:
  "createJob (calm 0) requestOne dbMorning =
     (Inr (1, generateOrderSummary requestOne (unitAlpha, Number 0)), dbOneOrder,
      Some (1, 1, True)) \<and>
   map m_available_from (db_mobiles dbOneOrder) = [0 + o_duration_minutes orderOne * 60000] \<and>
   createJob (calm 60000) requestTwo dbOneOrder =
     (Inr (2, generateOrderSummary requestTwo (hd (db_mobiles dbOneOrder), Number 0)),
      dbTwoOrders, None) \<and>
   autoUpdate (calm 180000) True 1 1 dbTwoOrders = (Confirmed, dbConfirmed) \<and>
   adminUpdateStatus (calm 600000) 1 ''completed'' None dbConfirmed = (Inr (), dbPromoted) \<and>
   map m_available_from (db_mobiles dbPromoted) = [60000 + o_duration_minutes orderTwo * 60000] \<and>
   map m_available_from (db_mobiles dbPromoted) \<noteq> map m_available_from (db_mobiles dbOneOrder) \<and>
   adminUpdateStatus (calm 700000) 2 ''completed'' None dbPromoted = (Inr (), dbReleased) \<and>
   db_mobiles dbReleased = [unitAlpha\<lparr>m_available_from := 700000\<rparr>] \<and>
   adminUpdateStatus (calm 800000) 1 ''pending'' None dbReleased = (Inr (), dbRequeued) \<and>
   map o_status (db_orders dbRequeued) = [''pending'', ''completed''] \<and>
   adminUpdateStatus (calm 900000) 2 ''cancelled'' None dbRequeued = (Inr (), dbRepromoted) \<and>
   map o_status (db_orders dbRepromoted) = [''assigned'', ''cancelled''] \<and>
   db_mobiles dbRepromoted =
     [unitAlpha\<lparr>m_available_from := 700000, m_current_order_id := Some 1\<rparr>] \<and>
   m_is_available (unitAlpha\<lparr>m_available_from := 700000, m_current_order_id := Some 1\<rparr>) = 1"
proof -
  have a: "map m_available_from (db_mobiles dbOneOrder) = [0 + o_duration_minutes orderOne * 60000]"
    by (simp add: dbOneOrder_def orderOne_def)
  have b: "map m_available_from (db_mobiles dbPromoted) = [60000 + o_duration_minutes orderTwo * 60000]"
    by (simp add: dbPromoted_def orderTwo_def)
  have c: "map m_available_from (db_mobiles dbPromoted) \<noteq> map m_available_from (db_mobiles dbOneOrder)"
    by (simp add: dbPromoted_def dbOneOrder_def)
  note rel = day_admin_releases [THEN conjunct1]
  have relm: "db_mobiles dbReleased = [unitAlpha\<lparr>m_available_from := 700000\<rparr>]"
    unfolding day_admin_releases [THEN conjunct2] by simp
  note req = day_admin_requeues [THEN conjunct1]
  have reqo: "map o_status (db_orders dbRequeued) = [''pending'', ''completed'']"
    unfolding day_admin_requeues [THEN conjunct2] by simp
  note rep = day_admin_repromotes [THEN conjunct1]
  have repo: "map o_status (db_orders dbRepromoted) = [''assigned'', ''cancelled'']"
    unfolding day_admin_repromotes [THEN conjunct2] by simp
  have repm: "db_mobiles dbRepromoted =
      [unitAlpha\<lparr>m_available_from := 700000, m_current_order_id := Some 1\<rparr>]"
    unfolding day_admin_repromotes [THEN conjunct2] by simp
  have flag: "m_is_available (unitAlpha\<lparr>m_available_from := 700000, m_current_order_id := Some 1\<rparr>) = 1"
    by (simp add: unitAlpha_def)
  from day_first_order a day_second_order day_timer_fires day_admin_completes b c
    rel relm req reqo rep repo repm flag
  show ?thesis by (intro conjI)
qed

text \<open>
  Claim C10, amended. When the admin route promotes a queued pending order after a
  terminal transition, it writes only the current order and the location of the unit: the
  flag and \<open>available_from\<close> of every unit are as they were before the transition, so the
  unit keeps whatever flag and estimate it carried, and neither is recomputed for the
  promoted order.
\<close>

theorem promotion_leaves_flag_and_estimate:
  assumes ok: "adminUpdateStatus e orderId status notes s = (Inr (), s')"
    and terminal: "status = ''completed'' \<or> status = ''cancelled''"
    and found: "find (\<lambda>r. o_id r = orderId) (db_orders s) = Some od"
    and bound: "boundMobile od = Some mobileId"
    and queued: "\<exists>r\<in>set (db_orders s).
                   o_mobile_id r = Some mobileId \<and> o_status r = ''pending'' \<and> o_id r \<noteq> orderId"
  shows "map m_is_available (db_mobiles s') = map m_is_available (db_mobiles s) \<and>
         map m_available_from (db_mobiles s') = map m_available_from (db_mobiles s) \<and>
         (\<exists>nxt\<in>set (db_orders s).
            o_mobile_id nxt = Some mobileId \<and> o_status nxt = ''pending'' \<and> o_id nxt \<noteq> orderId \<and>
            db_mobiles s' =
              map (\<lambda>m. if m_id m = mobileId
                        then m\<lparr>m_current_order_id := Some (o_id nxt),
                               m_location_lat := o_location_lat od,
                               m_location_lng := o_location_lng od\<rparr>
                        else m) (db_mobiles s))"
  by (rule promotion_frame [OF ok terminal found bound queued])

theorem promotion_leaves_flag_and_estimate_witness:
  "adminUpdateStatus (calm 600000) 1 ''completed'' None dbConfirmed = (Inr (), dbPromoted) \<and>
   find (\<lambda>r. o_id r = 1) (db_orders dbConfirmed) =
     Some (orderOne\<lparr>o_status := ''assigned'', o_updated_at := 180000\<rparr>) \<and>
   boundMobile (orderOne\<lparr>o_status := ''assigned'', o_updated_at := 180000\<rparr>) = Some 1 \<and>
   (\<exists>r\<in>set (db_orders dbConfirmed). o_mobile_id r = Some 1 \<and> o_status r = ''pending'' \<and> o_id r \<noteq> 1) \<and>
   map m_is_available (db_mobiles dbPromoted) = map m_is_available (db_mobiles dbConfirmed) \<and>
   map m_available_from (db_mobiles dbPromoted) = map m_available_from (db_mobiles dbConfirmed) \<and>
   adminUpdateStatus (calm 900000) 2 ''cancelled'' None dbRequeued = (Inr (), dbRepromoted) \<and>
   find (\<lambda>r. o_id r = 2) (db_orders dbRequeued) =
     Some (orderTwo\<lparr>o_status := ''completed'', o_updated_at := 700000\<rparr>) \<and>
   boundMobile (orderTwo\<lparr>o_status := ''completed'', o_updated_at := 700000\<rparr>) = Some 1 \<and>
   (\<exists>r\<in>set (db_orders dbRequeued). o_mobile_id r = Some 1 \<and> o_status r = ''pending'' \<and> o_id r \<noteq> 2) \<and>
   map m_is_available (db_mobiles dbRepromoted) = map m_is_available (db_mobiles dbRequeued) \<and>
   map m_available_from (db_mobiles dbRepromoted) = map m_available_from (db_mobiles dbRequeued)"
proof -
  let ?od = "orderOne\<lparr>o_status := ''assigned'', o_updated_at := 180000\<rparr>"
  let ?od2 = "orderTwo\<lparr>o_status := ''completed'', o_updated_at := 700000\<rparr>"
  have ok: "adminUpdateStatus (calm 600000) 1 ''completed'' None dbConfirmed = (Inr (), dbPromoted)"
    by (rule day_admin_completes)
  have terminal: "''completed'' = ''completed'' \<or> ''completed'' = ''cancelled''" by simp
  have found: "find (\<lambda>r. o_id r = 1) (db_orders dbConfirmed) = Some ?od"
    by (simp add: dbConfirmed_def orderOne_def)
  have bound: "boundMobile ?od = Some 1"
    by (simp add: boundMobile_def orderOne_def)
  have queued: "\<exists>r\<in>set (db_orders dbConfirmed).
      o_mobile_id r = Some 1 \<and> o_status r = ''pending'' \<and> o_id r \<noteq> 1"
    by (simp add: dbConfirmed_def orderOne_def orderTwo_def)
  note inst = promotion_leaves_flag_and_estimate [OF ok terminal found bound queued]
  have ok2: "adminUpdateStatus (calm 900000) 2 ''cancelled'' None dbRequeued = (Inr (), dbRepromoted)"
    by (rule day_admin_repromotes [THEN conjunct1])
  have terminal2: "''cancelled'' = ''completed'' \<or> ''cancelled'' = ''cancelled''" by simp
  have found2: "find (\<lambda>r. o_id r = 2) (db_orders dbRequeued) = Some ?od2"
    unfolding day_admin_requeues [THEN conjunct2] by (simp add: orderOne_def orderTwo_def)
  have bound2: "boundMobile ?od2 = Some 1"
    by (simp add: boundMobile_def orderTwo_def)
  have queued2: "\<exists>r\<in>set (db_orders dbRequeued).
      o_mobile_id r = Some 1 \<and> o_status r = ''pending'' \<and> o_id r \<noteq> 2"
    unfolding day_admin_requeues [THEN conjunct2] by (simp add: orderOne_def orderTwo_def)
  note inst2 = promotion_leaves_flag_and_estimate [OF ok2 terminal2 found2 bound2 queued2]
  from ok found bound queued inst [THEN conjunct1] inst [THEN conjunct2, THEN conjunct1]
    ok2 found2 bound2 queued2 inst2 [THEN conjunct1] inst2 [THEN conjunct2, THEN conjunct1]
  show ?thesis by (intro conjI)
qed
end
